theory Spec2Isabelle
  imports Main
begin

section \<open>Strings and the Python builtins the console calls\<close>

text \<open>
  A string is the list of the bytes of its UTF-8 form. Equality, emptiness, concatenation
  and the \<open>in\<close> operator of Python's \<open>str\<close> are then equality, emptiness,
  concatenation and contiguous occurrence on the bytes.

  \<open>str.strip\<close>, \<open>str.upper\<close>, \<open>str.lower\<close> and \<open>int\<close> are not code of the console:
  they are the interpreter's, they know all of Unicode, and \<open>int\<close> has its own white
  space and a limit on the number of digits. The console is therefore modelled for any
  four such functions, the record \<open>py\<close> that every handler takes, and every theorem
  about all inputs holds whatever these functions are, so in particular for Python's own.
  \<open>py_int\<close> gives \<open>None\<close> where \<open>int\<close> raises ValueError.
\<close>

record builtins =
  strip :: "string \<Rightarrow> string"
  upper :: "string \<Rightarrow> string"
  lower :: "string \<Rightarrow> string"
  py_int :: "string \<Rightarrow> int option"

text \<open>\<open>startswith s p\<close> is Python's \<open>s.startswith(p)\<close>; \<open>py_in sub s\<close> is \<open>sub in s\<close>.\<close>

fun startswith :: "string \<Rightarrow> string \<Rightarrow> bool" where
  "startswith s [] = True"
| "startswith [] (p # ps) = False"
| "startswith (c # cs) (p # ps) = (c = p \<and> startswith cs ps)"

fun py_in :: "string \<Rightarrow> string \<Rightarrow> bool" where
  "py_in sub [] = (sub = [])"
| "py_in sub (c # cs) = (startswith (c # cs) sub \<or> py_in sub cs)"

section \<open>Data model\<close>

datatype power_state = poweredOn | poweredOff | suspended

text \<open>
  A VM handle as the console reads it: its managed-object id, its \<open>name\<close> and its
  \<open>runtime.powerState\<close>. The console never writes to a handle.
\<close>

record vm_handle =
  moId :: string
  name :: string
  powerState :: power_state

record config_spec =
  numCPUs :: "int option"
  memoryMB :: "int option"

text \<open>The mutating remote calls (the Task Invoker), with their arguments.\<close>

datatype call =
    PowerOn vm_handle
  | PowerOff vm_handle
  | CreateSnapshot vm_handle string string bool bool
  | Destroy_Task vm_handle
  | Reconfigure vm_handle config_spec
  | Rename vm_handle string

fun call_target :: "call \<Rightarrow> vm_handle" where
  "call_target (PowerOn vm) = vm"
| "call_target (PowerOff vm) = vm"
| "call_target (CreateSnapshot vm n d m q) = vm"
| "call_target (Destroy_Task vm) = vm"
| "call_target (Reconfigure vm spec) = vm"
| "call_target (Rename vm n) = vm"

text \<open>
  What a run of the console does, in order: a line printed, a prompt shown by \<open>input\<close>,
  a remote call together with its outcome (\<open>None\<close>: the call returned a task;
  \<open>Some e\<close>: it raised an exception whose text is \<open>e\<close>).
\<close>

datatype event =
    Printed string
  | Prompted string
  | Invoked call "string option"

fun calls_of :: "event list \<Rightarrow> call list" where
  "calls_of [] = []"
| "calls_of (Invoked c r # es) = c # calls_of es"
| "calls_of (e # es) = calls_of es"

fun prompts_of :: "event list \<Rightarrow> string list" where
  "prompts_of [] = []"
| "prompts_of (Prompted p # es) = p # prompts_of es"
| "prompts_of (e # es) = prompts_of es"

text \<open>
  Python exceptions: the end of standard input, \<open>int\<close> on a malformed string (with the
  string), and whatever a remote call raises (with its text).
\<close>

datatype exn = EOFError | ValueError string | RemoteError string

text \<open>\<open>str(e)\<close>, as the f-strings of the \<open>except\<close> clauses print it.\<close>

fun str_exn :: "exn \<Rightarrow> string" where
  "str_exn EOFError = []"
| "str_exn (ValueError l) =
     ''invalid literal for int() with base 10: '' @ [CHR 0x27] @ l @ [CHR 0x27]"
| "str_exn (RemoteError e) = e"

text \<open>
  The console's state: the lines still waiting on standard input and the events so far.
\<close>

record io =
  inputs :: "string list"
  trace :: "event list"

definition start :: "string list \<Rightarrow> io" where
  "start ls = \<lparr>inputs = ls, trace = []\<rparr>"

text \<open>
  The world outside the console. Its answers may depend on the remote calls issued so
  far: \<open>invoker\<close> decides whether a call raises, \<open>strftime\<close> is the clock's text,
  \<open>inventory\<close> is what \<open>search_vms(si)\<close> returns; the remaining fields are what the
  read-only menu entries print.
\<close>

record env =
  invoker :: "call list \<Rightarrow> call \<Rightarrow> string option"
  strftime :: "call list \<Rightarrow> string"
  inventory :: "call list \<Rightarrow> vm_handle list"
  about_info :: string
  userName :: string
  vcenter_host :: string
  ipAddress :: string
  format_row :: "vm_handle \<Rightarrow> string"

section \<open>Sequencing, printing, reading, calling\<close>

type_synonym 'a prog = "io \<Rightarrow> (exn + 'a) \<times> io"

definition ret :: "'a \<Rightarrow> 'a prog" where
  "ret x s = (Inr x, s)"

definition raise :: "exn \<Rightarrow> 'a prog" where
  "raise e s = (Inl e, s)"

definition andthen :: "'a prog \<Rightarrow> ('a \<Rightarrow> 'b prog) \<Rightarrow> 'b prog" where
  "andthen m f s = (case m s of (Inl e, s') \<Rightarrow> (Inl e, s') | (Inr x, s') \<Rightarrow> f x s')"

text \<open>\<open>try: body except Exception as e: h(str(e))\<close> catches every exception.\<close>

definition except_Exception :: "'a prog \<Rightarrow> (string \<Rightarrow> 'a prog) \<Rightarrow> 'a prog" where
  "except_Exception body h s =
     (case body s of (Inl e, s') \<Rightarrow> h (str_exn e) s' | (Inr x, s') \<Rightarrow> (Inr x, s'))"

text \<open>\<open>try: body except ValueError: h\<close> lets every other exception pass.\<close>

definition except_ValueError :: "'a prog \<Rightarrow> 'a prog \<Rightarrow> 'a prog" where
  "except_ValueError body h s =
     (case body s of
        (Inl (ValueError l), s') \<Rightarrow> h s'
      | (Inl e, s') \<Rightarrow> (Inl e, s')
      | (Inr x, s') \<Rightarrow> (Inr x, s'))"

definition print :: "string \<Rightarrow> unit prog" where
  "print l s = (Inr (), s\<lparr>trace := trace s @ [Printed l]\<rparr>)"

definition prints :: "string list \<Rightarrow> unit prog" where
  "prints ls s = (Inr (), s\<lparr>trace := trace s @ map Printed ls\<rparr>)"

text \<open>\<open>input(prompt)\<close>: the prompt is shown, then a line is read; at end of input EOFError.\<close>

definition input :: "string \<Rightarrow> string prog" where
  "input p s =
     (case inputs s of
        [] \<Rightarrow> (Inl EOFError, s\<lparr>trace := trace s @ [Prompted p]\<rparr>)
      | l # ls \<Rightarrow> (Inr l, s\<lparr>inputs := ls, trace := trace s @ [Prompted p]\<rparr>))"

text \<open>\<open>int(l)\<close> as a statement: the number, or ValueError.\<close>

definition int_of :: "builtins \<Rightarrow> string \<Rightarrow> int prog" where
  "int_of py l = (case py_int py l of None \<Rightarrow> raise (ValueError l) | Some n \<Rightarrow> ret n)"

text \<open>A remote call: it is recorded with its outcome, and raises when the outcome says so.\<close>

definition invoke :: "env \<Rightarrow> call \<Rightarrow> unit prog" where
  "invoke ev c s =
     (let r = invoker ev (calls_of (trace s)) c;
          s' = s\<lparr>trace := trace s @ [Invoked c r]\<rparr>
      in case r of None \<Rightarrow> (Inr (), s') | Some e \<Rightarrow> (Inl (RemoteError e), s'))"

text \<open>\<open>time.strftime('%Y%m%d-%H%M%S')\<close>\<close>

definition time_strftime :: "env \<Rightarrow> string prog" where
  "time_strftime ev s = (Inr (strftime ev (calls_of (trace s))), s)"

text \<open>What a program adds to the trace, and how it ends.\<close>

definition events_of :: "'a prog \<Rightarrow> io \<Rightarrow> event list" where
  "events_of p s = drop (length (trace s)) (trace (snd (p s)))"

definition outcome :: "'a prog \<Rightarrow> io \<Rightarrow> exn + 'a" where
  "outcome p s = fst (p s)"

section \<open>The handlers of the VM Actions menu\<close>

text \<open>
  Every handler begins with \<open>vms = search_vms(si)\<close>, the whole inventory; here the
  handler takes that list as \<open>vms\<close>, and \<open>vm_action\<close> below passes the inventory
  of the moment. A handle's \<open>name\<close> and \<open>powerState\<close> are read as they were when the
  list was fetched. \<open>time.sleep(2)\<close> after a power call leaves no event. A \<open>return\<close>
  in the middle of a handler is the end of the branch that reaches it.
\<close>

text \<open>Texts shared by the handlers; the two signs are the UTF-8 bytes of the source.\<close>

definition nl :: string where
  "nl = [CHR 0x0A]"

definition warning_sign :: string where
  "warning_sign = [CHR 0xE2, CHR 0x9A, CHR 0xA0, CHR 0xEF, CHR 0xB8, CHR 0x8F]"

definition check_mark :: string where
  "check_mark = [CHR 0xE2, CHR 0x9C, CHR 0x93]"

definition quoted :: "string \<Rightarrow> string" where
  "quoted t = [CHR 0x27] @ t @ [CHR 0x27]"

text \<open>The list every handler prints first: \<open>for vm in vms: print(f"  - {vm.name}")\<close>.\<close>

definition list_vms :: "vm_handle list \<Rightarrow> unit prog" where
  "list_vms vms =
     andthen (print (nl @ ''VMs managed by vCenter:'')) (\<lambda>_.
     prints (map (\<lambda>vm. ''  - '' @ name vm) vms))"

text \<open>\<open>[vm for vm in vms if vm_name.lower() in vm.name.lower()]\<close>\<close>

definition matching :: "builtins \<Rightarrow> string \<Rightarrow> vm_handle list \<Rightarrow> vm_handle list" where
  "matching py vm_name vms = filter (\<lambda>vm. py_in (lower py vm_name) (lower py (name vm))) vms"

subsection \<open>Power on\<close>

fun power_on_each :: "env \<Rightarrow> vm_handle list \<Rightarrow> unit prog" where
  "power_on_each ev [] = ret ()"
| "power_on_each ev (vm # rest) =
     andthen
       (if powerState vm = poweredOn
        then print (name vm @ '' is already powered on, skipping!'')
        else
          andthen (print (name vm @ '' is not powered on, powering on now!'')) (\<lambda>_.
          except_Exception
            (andthen (invoke ev (PowerOn vm)) (\<lambda>_.
             print (name vm @ '' is now powered on!'')))
            (\<lambda>e. print (''Failed to power on '' @ name vm @ '': '' @ e))))
       (\<lambda>_. power_on_each ev rest)"

definition power_on_vm :: "builtins \<Rightarrow> env \<Rightarrow> vm_handle list \<Rightarrow> unit prog" where
  "power_on_vm py ev vms =
     andthen (print (nl @ ''=== Power On VM(s) ==='')) (\<lambda>_.
     andthen (list_vms vms) (\<lambda>_.
     andthen (input (nl @ ''Enter VM name to power on (leave empty for ALL): '')) (\<lambda>l.
       let vm_name = strip py l in
       if vm_name \<noteq> [] then
         (let target_vms = matching py vm_name vms in
          if target_vms = [] then print (''No VM found matching py '' @ quoted vm_name)
          else power_on_each ev target_vms)
       else
         andthen (input ''Are you sure you want to power on ALL VMs? (Y/N): '') (\<lambda>c.
           let confirm = upper py (strip py c) in
           if confirm \<noteq> ''Y'' then print ''Cancelled.''
           else power_on_each ev vms))))"

subsection \<open>Power off\<close>

fun power_off_each :: "env \<Rightarrow> vm_handle list \<Rightarrow> unit prog" where
  "power_off_each ev [] = ret ()"
| "power_off_each ev (vm # rest) =
     andthen
       (if powerState vm = poweredOff
        then print (name vm @ '' is already powered off, skipping!'')
        else
          andthen (print (name vm @ '' is powered on, powering off now!'')) (\<lambda>_.
          except_Exception
            (andthen (invoke ev (PowerOff vm)) (\<lambda>_.
             print (name vm @ '' is now powered off!'')))
            (\<lambda>e. print (''Failed to power off '' @ name vm @ '': '' @ e))))
       (\<lambda>_. power_off_each ev rest)"

definition power_off_vm :: "builtins \<Rightarrow> env \<Rightarrow> vm_handle list \<Rightarrow> unit prog" where
  "power_off_vm py ev vms =
     andthen (print (nl @ ''=== Power Off VM(s) ==='')) (\<lambda>_.
     andthen (list_vms vms) (\<lambda>_.
     andthen (input (nl @ ''Enter VM name to power off (leave empty for ALL): '')) (\<lambda>l.
       let vm_name = strip py l in
       if vm_name \<noteq> [] then
         (let target_vms = matching py vm_name vms in
          if target_vms = [] then print (''No VM found matching py '' @ quoted vm_name)
          else power_off_each ev target_vms)
       else
         andthen (input ''Are you sure you want to power off ALL VMs? (Y/N): '') (\<lambda>c.
           let confirm = upper py (strip py c) in
           if confirm \<noteq> ''Y'' then print ''Cancelled.''
           else power_off_each ev vms))))"

subsection \<open>Snapshot\<close>

text \<open>
  In the four handlers below the source takes \<open>vm = target_vms[0]\<close> and never looks at
  the list again; the rest of each body is the definition on that one handle.
\<close>

definition snapshot_target :: "builtins \<Rightarrow> env \<Rightarrow> vm_handle \<Rightarrow> unit prog" where
  "snapshot_target py ev vm =
     andthen (input (''Create snapshot of '' @ quoted (name vm) @ ''? (Y/N): '')) (\<lambda>c.
       let confirm = upper py (strip py c) in
       if confirm \<noteq> ''Y'' then print ''Cancelled.''
       else
         andthen (input ''Enter snapshot name: '') (\<lambda>n.
         andthen (if strip py n = []
                  then andthen (time_strftime ev) (\<lambda>t. ret (''Snapshot-'' @ t))
                  else ret (strip py n)) (\<lambda>snapshot_name.
         andthen (input ''Enter snapshot description (optional): '') (\<lambda>d.
           let snapshot_description = strip py d in
           andthen (print (nl @ ''Creating snapshot '' @ quoted snapshot_name
                             @ '' for '' @ name vm @ ''...'')) (\<lambda>_.
           except_Exception
             (andthen (invoke ev (CreateSnapshot vm snapshot_name snapshot_description False False)) (\<lambda>_.
              print (''Snapshot '' @ quoted snapshot_name @ '' created successfully!'')))
             (\<lambda>e. print (''Failed to create snapshot: '' @ e)))))))"

definition create_snapshot :: "builtins \<Rightarrow> env \<Rightarrow> vm_handle list \<Rightarrow> unit prog" where
  "create_snapshot py ev vms =
     andthen (print (nl @ ''=== Take a Snapshot ==='')) (\<lambda>_.
     andthen (list_vms vms) (\<lambda>_.
     andthen (input (nl @ ''Enter VM name to snapshot: '')) (\<lambda>l.
       let vm_name = strip py l in
       case matching py vm_name vms of
         [] \<Rightarrow> print (''No VM found matching py '' @ quoted vm_name)
       | vm # others \<Rightarrow> snapshot_target py ev vm)))"

subsection \<open>Delete\<close>

text \<open>
  The \<open>return\<close> inside the \<open>except\<close> clause of the nested power-off is the result
  \<open>False\<close> of \<open>power_off_first\<close>: the deletion goes on only after \<open>True\<close>.
\<close>

definition power_off_first :: "builtins \<Rightarrow> env \<Rightarrow> vm_handle \<Rightarrow> bool prog" where
  "power_off_first py ev vm =
     andthen (print (nl @ name vm @ '' must be powered off before deletion.'')) (\<lambda>_.
     andthen (input ''Power off now? (Y/N): '') (\<lambda>p.
       let power_off = upper py (strip py p) in
       if power_off = ''Y'' then
         except_Exception
           (andthen (invoke ev (PowerOff vm)) (\<lambda>_.
            andthen (print (name vm @ '' powered off.'')) (\<lambda>_. ret True)))
           (\<lambda>e. andthen (print (''Failed to power off: '' @ e)) (\<lambda>_. ret False))
       else andthen (print ''Deletion cancelled.'') (\<lambda>_. ret False)))"

definition destroy_target :: "env \<Rightarrow> vm_handle \<Rightarrow> unit prog" where
  "destroy_target ev vm =
     andthen (print (nl @ ''Deleting '' @ name vm @ '' from disk...'')) (\<lambda>_.
     except_Exception
       (andthen (invoke ev (Destroy_Task vm)) (\<lambda>_.
        print (check_mark @ '' '' @ name vm @ '' has been deleted successfully!'')))
       (\<lambda>e. print (''Failed to delete VM: '' @ e)))"

definition delete_target :: "builtins \<Rightarrow> env \<Rightarrow> vm_handle \<Rightarrow> unit prog" where
  "delete_target py ev vm =
     andthen (print (nl @ warning_sign @ ''  WARNING: You are about to DELETE ''
                       @ quoted (name vm) @ '' permanently!'')) (\<lambda>_.
     andthen (input (''Are you ABSOLUTELY SURE you want to delete '' @ quoted (name vm)
                       @ ''? (YES/NO): '')) (\<lambda>c1.
       let confirm1 = upper py (strip py c1) in
       if confirm1 \<noteq> ''YES'' then print ''Cancelled.''
       else
         andthen (input (''Type the VM name '' @ quoted (name vm)
                           @ '' to confirm deletion: '')) (\<lambda>c2.
           let confirm2 = strip py c2 in
           if confirm2 \<noteq> name vm then print ''VM name does not match. Deletion cancelled.''
           else
             andthen (if powerState vm \<noteq> poweredOff then power_off_first py ev vm
                      else ret True) (\<lambda>go_on.
               if go_on then destroy_target ev vm else ret ()))))"

definition delete_vm :: "builtins \<Rightarrow> env \<Rightarrow> vm_handle list \<Rightarrow> unit prog" where
  "delete_vm py ev vms =
     andthen (print (nl @ ''=== Delete a VM ==='')) (\<lambda>_.
     andthen (list_vms vms) (\<lambda>_.
     andthen (input (nl @ ''Enter VM name to DELETE: '')) (\<lambda>l.
       let vm_name = strip py l in
       case matching py vm_name vms of
         [] \<Rightarrow> print (''No VM found matching py '' @ quoted vm_name)
       | vm # others \<Rightarrow> delete_target py ev vm)))"

subsection \<open>Reconfigure\<close>

text \<open>\<open>str(n)\<close> of an integer, for the lines that report the new values.\<close>

fun str_nat :: "nat \<Rightarrow> string" where
  "str_nat n =
     (if n < 10 then [''0123456789'' ! n]
      else str_nat (n div 10) @ [''0123456789'' ! (n mod 10)])"

definition str_int :: "int \<Rightarrow> string" where
  "str_int i = (if i < 0 then ''-'' @ str_nat (nat (- i)) else str_nat (nat i))"

text \<open>Python's truth value of \<open>new_cpu\<close>: \<open>None\<close> and \<open>0\<close> are false.\<close>

fun truthy :: "int option \<Rightarrow> bool" where
  "truthy None = False"
| "truthy (Some n) = (n \<noteq> 0)"

text \<open>
  One optional value: asked for only after a \<open>Y\<close>; \<open>int\<close> on the stripped answer, and
  the \<open>return\<close> of the \<open>except ValueError\<close> clause is the result \<open>None\<close>. The result
  \<open>Some v\<close> carries the variable's value, which is \<open>None\<close> when no change was asked for.
\<close>

definition ask_value :: "builtins \<Rightarrow> string \<Rightarrow> string \<Rightarrow> string \<Rightarrow> int option option prog" where
  "ask_value py question prompt complaint =
     andthen (input question) (\<lambda>a.
       let change = upper py (strip py a) in
       if change = ''Y'' then
         except_ValueError
           (andthen (input prompt) (\<lambda>v.
            andthen (int_of py (strip py v)) (\<lambda>n. ret (Some (Some n)))))
           (andthen (print complaint) (\<lambda>_. ret None))
       else ret (Some None))"

definition apply_spec :: "env \<Rightarrow> vm_handle \<Rightarrow> int option \<Rightarrow> int option \<Rightarrow> unit prog" where
  "apply_spec ev vm new_cpu new_memory_gb =
     (let spec = \<lparr>numCPUs = (if truthy new_cpu then new_cpu else None),
                  memoryMB = (if truthy new_memory_gb
                              then map_option (\<lambda>g. g * 1024) new_memory_gb else None)\<rparr>
      in
        andthen (print (nl @ ''Reconfiguring '' @ name vm @ ''...'')) (\<lambda>_.
        except_Exception
          (andthen (invoke ev (Reconfigure vm spec)) (\<lambda>_.
           andthen (print (check_mark @ '' '' @ name vm @ '' has been reconfigured!'')) (\<lambda>_.
           andthen (if truthy new_cpu
                    then print (''  - CPUs: '' @ str_int (the new_cpu)) else ret ()) (\<lambda>_.
           (if truthy new_memory_gb
            then print (''  - Memory: '' @ str_int (the new_memory_gb) @ '' GB'')
            else ret ())))))
          (\<lambda>e. print (''Failed to reconfigure VM: '' @ e))))"

definition reconfigure_target :: "builtins \<Rightarrow> env \<Rightarrow> vm_handle \<Rightarrow> unit prog" where
  "reconfigure_target py ev vm =
     (if powerState vm \<noteq> poweredOff then
        andthen (print (nl @ warning_sign @ ''  '' @ name vm
                          @ '' must be powered off to reconfigure hardware!'')) (\<lambda>_.
        print ''Please power off the VM first.'')
      else
        andthen (input (''Reconfigure '' @ quoted (name vm) @ ''? (Y/N): '')) (\<lambda>c.
          let confirm = upper py (strip py c) in
          if confirm \<noteq> ''Y'' then print ''Cancelled.''
          else
            andthen (ask_value py ''Change CPU count? (Y/N): '' ''Enter new CPU count: ''
                       ''Invalid CPU count'') (\<lambda>cpu.
              case cpu of
                None \<Rightarrow> ret ()
              | Some new_cpu \<Rightarrow>
                  andthen (ask_value py ''Change Memory? (Y/N): '' ''Enter new Memory in GB: ''
                             ''Invalid memory size'') (\<lambda>mem.
                    case mem of
                      None \<Rightarrow> ret ()
                    | Some new_memory_gb \<Rightarrow> apply_spec ev vm new_cpu new_memory_gb))))"

definition reconfigure_vm :: "builtins \<Rightarrow> env \<Rightarrow> vm_handle list \<Rightarrow> unit prog" where
  "reconfigure_vm py ev vms =
     andthen (print (nl @ ''=== Reconfigure a VM ==='')) (\<lambda>_.
     andthen (list_vms vms) (\<lambda>_.
     andthen (input (nl @ ''Enter VM name to reconfigure: '')) (\<lambda>l.
       let vm_name = strip py l in
       case matching py vm_name vms of
         [] \<Rightarrow> print (''No VM found matching py '' @ quoted vm_name)
       | vm # others \<Rightarrow> reconfigure_target py ev vm)))"

subsection \<open>Rename\<close>

definition rename_target :: "builtins \<Rightarrow> env \<Rightarrow> vm_handle \<Rightarrow> unit prog" where
  "rename_target py ev vm =
     andthen (input (''Rename '' @ quoted (name vm) @ ''? (Y/N): '')) (\<lambda>c.
       let confirm = upper py (strip py c) in
       if confirm \<noteq> ''Y'' then print ''Cancelled.''
       else
         andthen (input ''Enter new VM name: '') (\<lambda>n.
           let new_name = strip py n in
           if new_name = [] then print ''Name cannot be empty''
           else
             andthen (print (nl @ ''Renaming '' @ name vm @ '' to '' @ new_name @ ''...'')) (\<lambda>_.
             except_Exception
               (andthen (invoke ev (Rename vm new_name)) (\<lambda>_.
                print (check_mark @ '' VM renamed successfully to '' @ quoted new_name @ ''!'')))
               (\<lambda>e. print (''Failed to rename VM: '' @ e)))))"

definition rename_vm :: "builtins \<Rightarrow> env \<Rightarrow> vm_handle list \<Rightarrow> unit prog" where
  "rename_vm py ev vms =
     andthen (print (nl @ ''=== Rename a VM ==='')) (\<lambda>_.
     andthen (list_vms vms) (\<lambda>_.
     andthen (input (nl @ ''Enter VM name to rename: '')) (\<lambda>l.
       let vm_name = strip py l in
       case matching py vm_name vms of
         [] \<Rightarrow> print (''No VM found matching py '' @ quoted vm_name)
       | vm # others \<Rightarrow> rename_target py ev vm)))"

section \<open>The menus\<close>

text \<open>
  The menus of \<open>5.2Menu.py\<close>. Its first \<open>def main\<close> is replaced by the second one,
  which is the one modelled. (\<open>vm_manager.py\<close> is an earlier console with the listing
  entries only; it has no handler that changes a VM.)
\<close>

definition get_session_info :: "env \<Rightarrow> unit prog" where
  "get_session_info ev =
     prints [nl @ ''=== Current Session Information ==='',
             ''DOMAIN/Username: '' @ userName ev,
             ''vCenter Server: '' @ vcenter_host ev,
             ''Source IP Address: '' @ ipAddress ev,
             replicate 40 (CHR ''='')]"

definition ljust :: "nat \<Rightarrow> string \<Rightarrow> string" where
  "ljust w t = t @ replicate (w - length t) (CHR '' '')"

definition display_vm_info :: "env \<Rightarrow> vm_handle list \<Rightarrow> unit prog" where
  "display_vm_info ev vms =
     (if vms = [] then print (nl @ ''No VMs found!'')
      else
        andthen (print (nl @ ljust 30 ''VM Name'' @ '' '' @ ljust 15 ''Power State'' @ '' ''
                          @ ljust 8 ''CPUs'' @ '' '' @ ljust 12 ''Memory (GB)'' @ '' ''
                          @ ljust 15 ''IP Address'')) (\<lambda>_.
        andthen (print (replicate 90 (CHR ''=''))) (\<lambda>_.
        prints (map (format_row ev) vms))))"

definition search_vms :: "builtins \<Rightarrow> env \<Rightarrow> string \<Rightarrow> vm_handle list prog" where
  "search_vms py ev name_filter s =
     (let vms = inventory ev (calls_of (trace s))
      in (Inr (if name_filter \<noteq> [] then matching py name_filter vms else vms), s))"

definition vmmenu :: "unit prog" where
  "vmmenu =
     prints [nl @ ''[1] Power on VM'', ''[2] Power Off VM'', ''[3] Take a Snapshot'',
             ''[4] Delete a VM'', ''[5] Reconfigure a VM'', ''[6] Rename a VM'',
             ''[0] Exit the VM Actions.'']"

definition read_option :: "builtins \<Rightarrow> int prog" where
  "read_option py = andthen (input ''Enter your option: '') (int_of py)"

text \<open>The body of the inner \<open>while vmoption != 0\<close>, up to the next option read.\<close>

definition vm_action :: "builtins \<Rightarrow> env \<Rightarrow> int \<Rightarrow> unit prog" where
  "vm_action py ev vmoption =
     andthen (search_vms py ev []) (\<lambda>vms.
       if vmoption = 1 then power_on_vm py ev vms
       else if vmoption = 2 then power_off_vm py ev vms
       else if vmoption = 3 then create_snapshot py ev vms
       else if vmoption = 4 then delete_vm py ev vms
       else if vmoption = 5 then reconfigure_vm py ev vms
       else if vmoption = 6 then rename_vm py ev vms
       else ret ())"

definition vm_actions_step :: "builtins \<Rightarrow> env \<Rightarrow> int \<Rightarrow> int prog" where
  "vm_actions_step py ev vmoption =
     andthen (vm_action py ev vmoption) (\<lambda>_.
     andthen vmmenu (\<lambda>_. read_option py))"

section \<open>Programs only read input and only add events\<close>

text \<open>
  \<open>later s s'\<close>: from \<open>s\<close> to \<open>s'\<close> no line was put back on the input and the trace
  was only extended. \<open>consumes\<close> says that a program always ends in a later state,
  \<open>consumes_one\<close> that a run which returns has read at least one line. The two loops of
  \<open>main\<close> stop because each pass reads a line.
\<close>

definition later :: "io \<Rightarrow> io \<Rightarrow> bool" where
  "later s s' = (length (inputs s') \<le> length (inputs s) \<and> (\<exists>es. trace s' = trace s @ es))"

definition consumes :: "'a prog \<Rightarrow> bool" where
  "consumes p = (\<forall>s. later s (snd (p s)))"

definition consumes_one :: "'a prog \<Rightarrow> bool" where
  "consumes_one p = (\<forall>s x s'. p s = (Inr x, s') \<longrightarrow> length (inputs s') < length (inputs s))"

lemma later_refl: "later s s"
  by (simp add: later_def)

lemma later_trans: "later s s' \<Longrightarrow> later s' s'' \<Longrightarrow> later s s''"
  by (auto simp: later_def)

lemma later_trace: "later s (s\<lparr>trace := trace s @ es\<rparr>)"
  by (simp add: later_def)

lemma consumesD: "consumes p \<Longrightarrow> p s = (r, s') \<Longrightarrow> later s s'"
  by (metis consumes_def snd_conv)

lemma consumes_ret: "consumes (ret x)"
  by (simp add: consumes_def ret_def later_refl)

lemma consumes_raise: "consumes (raise e)"
  by (simp add: consumes_def raise_def later_refl)

lemma consumes_print: "consumes (print l)"
  by (simp add: consumes_def print_def later_trace)

lemma consumes_prints: "consumes (prints ls)"
  by (simp add: consumes_def prints_def later_trace)

lemma consumes_input: "consumes (input p)"
  by (simp add: consumes_def input_def later_def split: list.splits)

lemma consumes_invoke: "consumes (invoke ev c)"
  by (simp add: consumes_def invoke_def Let_def later_trace split: option.splits)

lemma consumes_time: "consumes (time_strftime ev)"
  by (simp add: consumes_def time_strftime_def later_refl)

lemma consumes_int_of: "consumes (int_of py l)"
  by (simp add: int_of_def consumes_ret consumes_raise split: option.splits)

lemma consumes_search: "consumes (search_vms py ev f)"
  by (simp add: consumes_def search_vms_def Let_def later_refl)

lemma consumes_andthen:
  assumes "consumes m" and "\<And>x. consumes (f x)"
  shows "consumes (andthen m f)"
proof -
  have "later s (snd (andthen m f s))" for s
  proof (cases "m s")
    case (Pair r s')
    have a: "later s s'"
      using assms(1) Pair by (rule consumesD)
    show ?thesis
    proof (cases r)
      case (Inl e)
      then show ?thesis using Pair a by (simp add: andthen_def)
    next
      case (Inr x)
      have "later s' (snd (f x s'))"
        using assms(2) by (simp add: consumes_def)
      then have "later s (snd (f x s'))"
        using a later_trans by blast
      then show ?thesis using Pair Inr by (simp add: andthen_def)
    qed
  qed
  then show ?thesis by (simp add: consumes_def)
qed

lemma consumes_except_Exception:
  assumes "consumes m" and "\<And>e. consumes (h e)"
  shows "consumes (except_Exception m h)"
proof -
  have "later s (snd (except_Exception m h s))" for s
  proof (cases "m s")
    case (Pair r s')
    have a: "later s s'"
      using assms(1) Pair by (rule consumesD)
    show ?thesis
    proof (cases r)
      case (Inl e)
      have "later s' (snd (h (str_exn e) s'))"
        using assms(2) by (simp add: consumes_def)
      then have "later s (snd (h (str_exn e) s'))"
        using a later_trans by blast
      then show ?thesis using Pair Inl by (simp add: except_Exception_def)
    next
      case (Inr x)
      then show ?thesis using Pair a by (simp add: except_Exception_def)
    qed
  qed
  then show ?thesis by (simp add: consumes_def)
qed

lemma consumes_except_ValueError:
  assumes "consumes m" and "consumes h"
  shows "consumes (except_ValueError m h)"
proof -
  have "later s (snd (except_ValueError m h s))" for s
  proof (cases "m s")
    case (Pair r s')
    have a: "later s s'"
      using assms(1) Pair by (rule consumesD)
    have "later s' (snd (h s'))"
      using assms(2) by (simp add: consumes_def)
    then have b: "later s (snd (h s'))"
      using a later_trans by blast
    show ?thesis
      using Pair a b by (simp add: except_ValueError_def split: sum.splits exn.splits)
  qed
  then show ?thesis by (simp add: consumes_def)
qed

lemma consumes_if: "consumes p \<Longrightarrow> consumes q \<Longrightarrow> consumes (if b then p else q)"
  by simp

lemma consumes_case_list:
  "consumes p \<Longrightarrow> (\<And>x xs. consumes (q x xs)) \<Longrightarrow>
   consumes (case l of [] \<Rightarrow> p | x # xs \<Rightarrow> q x xs)"
  by (simp split: list.splits)

lemma consumes_case_option:
  "consumes p \<Longrightarrow> (\<And>x. consumes (q x)) \<Longrightarrow>
   consumes (case l of None \<Rightarrow> p | Some x \<Rightarrow> q x)"
  by (simp split: option.splits)

lemmas consumes_intros = consumes_ret consumes_raise consumes_print consumes_prints
  consumes_input consumes_invoke consumes_time consumes_int_of consumes_search consumes_andthen
  consumes_except_Exception consumes_except_ValueError consumes_if consumes_case_list
  consumes_case_option

lemma consumes_power_on_each: "consumes (power_on_each ev vms)"
  by (induction vms) (simp_all add: consumes_intros)

lemma consumes_power_off_each: "consumes (power_off_each ev vms)"
  by (induction vms) (simp_all add: consumes_intros)

lemma consumes_power_on_vm: "consumes (power_on_vm py ev vms)"
  unfolding power_on_vm_def list_vms_def Let_def
  by (intro consumes_intros consumes_power_on_each)

lemma consumes_power_off_vm: "consumes (power_off_vm py ev vms)"
  unfolding power_off_vm_def list_vms_def Let_def
  by (intro consumes_intros consumes_power_off_each)

lemma consumes_snapshot_target: "consumes (snapshot_target py ev vm)"
  unfolding snapshot_target_def Let_def
  by (intro consumes_intros)

lemma consumes_create_snapshot: "consumes (create_snapshot py ev vms)"
  unfolding create_snapshot_def list_vms_def Let_def
  by (intro consumes_intros consumes_snapshot_target)

lemma consumes_power_off_first: "consumes (power_off_first py ev vm)"
  unfolding power_off_first_def Let_def
  by (intro consumes_intros)

lemma consumes_destroy_target: "consumes (destroy_target ev vm)"
  unfolding destroy_target_def
  by (intro consumes_intros)

lemma consumes_delete_target: "consumes (delete_target py ev vm)"
  unfolding delete_target_def Let_def
  by (intro consumes_intros consumes_power_off_first consumes_destroy_target)

lemma consumes_delete_vm: "consumes (delete_vm py ev vms)"
  unfolding delete_vm_def list_vms_def Let_def
  by (intro consumes_intros consumes_delete_target)

lemma consumes_ask_value: "consumes (ask_value py question prompt complaint)"
  unfolding ask_value_def Let_def
  by (intro consumes_intros)

lemma consumes_apply_spec: "consumes (apply_spec ev vm new_cpu new_memory_gb)"
  unfolding apply_spec_def Let_def
  by (intro consumes_intros)

lemma consumes_reconfigure_target: "consumes (reconfigure_target py ev vm)"
  unfolding reconfigure_target_def Let_def
  by (intro consumes_intros consumes_ask_value consumes_apply_spec)

lemma consumes_reconfigure_vm: "consumes (reconfigure_vm py ev vms)"
  unfolding reconfigure_vm_def list_vms_def Let_def
  by (intro consumes_intros consumes_reconfigure_target)

lemma consumes_rename_target: "consumes (rename_target py ev vm)"
  unfolding rename_target_def Let_def
  by (intro consumes_intros)

lemma consumes_rename_vm: "consumes (rename_vm py ev vms)"
  unfolding rename_vm_def list_vms_def Let_def
  by (intro consumes_intros consumes_rename_target)

lemma consumes_vm_action: "consumes (vm_action py ev n)"
  unfolding vm_action_def
  by (intro consumes_intros consumes_power_on_vm consumes_power_off_vm
      consumes_create_snapshot consumes_delete_vm consumes_reconfigure_vm consumes_rename_vm)

lemma consumes_one_read_option: "consumes_one (read_option py)"
  by (auto simp: consumes_one_def read_option_def andthen_def input_def int_of_def ret_def
      raise_def split: list.splits option.splits)

lemma consumes_then_one:
  assumes "consumes m" and "\<And>x. consumes_one (f x)"
  shows "consumes_one (andthen m f)"
proof -
  have "length (inputs s'') < length (inputs s)" if run: "andthen m f s = (Inr y, s'')" for s y s''
  proof (cases "m s")
    case (Pair r s')
    have "later s s'"
      using assms(1) Pair by (rule consumesD)
    then have a: "length (inputs s') \<le> length (inputs s)"
      by (simp add: later_def)
    show ?thesis
    proof (cases r)
      case (Inl e)
      then show ?thesis using Pair run by (simp add: andthen_def)
    next
      case (Inr x)
      then have "f x s' = (Inr y, s'')" using Pair run by (simp add: andthen_def)
      then have "length (inputs s'') < length (inputs s')"
        using assms(2) by (auto simp: consumes_one_def)
      then show ?thesis using a by simp
    qed
  qed
  then show ?thesis by (auto simp: consumes_one_def)
qed

lemma consumes_one_then:
  assumes "consumes_one m" and "\<And>x. consumes (f x)"
  shows "consumes_one (andthen m f)"
proof -
  have "length (inputs s'') < length (inputs s)" if run: "andthen m f s = (Inr y, s'')" for s y s''
  proof (cases "m s")
    case (Pair r s')
    show ?thesis
    proof (cases r)
      case (Inl e)
      then show ?thesis using Pair run by (simp add: andthen_def)
    next
      case (Inr x)
      then have a: "length (inputs s') < length (inputs s)"
        using assms(1) Pair by (auto simp: consumes_one_def)
      have "f x s' = (Inr y, s'')" using Pair Inr run by (simp add: andthen_def)
      then have "later s' s''"
        by (rule consumesD [OF assms(2)])
      then show ?thesis using a by (simp add: later_def)
    qed
  qed
  then show ?thesis by (auto simp: consumes_one_def)
qed

lemma consumes_vm_actions_step: "consumes (vm_actions_step py ev n)"
  unfolding vm_actions_step_def vmmenu_def read_option_def
  by (intro consumes_intros consumes_vm_action)

lemma consumes_one_vm_actions_step: "consumes_one (vm_actions_step py ev n)"
  unfolding vm_actions_step_def vmmenu_def
  by (intro consumes_then_one consumes_vm_action consumes_prints consumes_one_read_option)

section \<open>The two loops of \<open>main\<close>\<close>

text \<open>
  \<open>while vmoption != 0\<close>: the handler for the option, the menu again, the next option.
\<close>

function vm_actions :: "builtins \<Rightarrow> env \<Rightarrow> int \<Rightarrow> unit prog" where
  "vm_actions py ev vmoption s =
     (if vmoption = 0 then (Inr (), s)
      else case vm_actions_step py ev vmoption s of
             (Inl e, s') \<Rightarrow> (Inl e, s')
           | (Inr next_option, s') \<Rightarrow> vm_actions py ev next_option s')"
  by pat_completeness auto
termination
proof (relation "measure (\<lambda>(py, ev, vmoption, s). length (inputs s))")
  show "wf (measure (\<lambda>(py, ev, vmoption, s). length (inputs s)))"
    by simp
next
  fix py :: builtins and ev :: env and vmoption :: int and s :: io and x2 :: io
    and x :: "exn + int"
    and next_option :: int
  assume "vmoption \<noteq> 0" and "(x, x2) = vm_actions_step py ev vmoption s"
    and "x = Inr next_option"
  then have "vm_actions_step py ev vmoption s = (Inr next_option, x2)"
    by simp
  then have "length (inputs x2) < length (inputs s)"
    using consumes_one_vm_actions_step by (auto simp: consumes_one_def)
  then show "((py, ev, next_option, x2), (py, ev, vmoption, s))
               \<in> measure (\<lambda>(py, ev, vmoption, s). length (inputs s))"
    by simp
qed

declare vm_actions.simps [simp del]

lemma consumes_vm_actions: "consumes (vm_actions py ev n)"
proof -
  have "later s (snd (vm_actions py ev n s))" for s
  proof (induction py ev n s rule: vm_actions.induct)
    case (1 py ev vmoption s)
    show ?case
    proof (cases "vmoption = 0")
      case True
      then show ?thesis by (simp add: vm_actions.simps later_refl)
    next
      case False
      obtain r s' where step: "vm_actions_step py ev vmoption s = (r, s')"
        by (cases "vm_actions_step py ev vmoption s")
      have a: "later s s'"
        using consumes_vm_actions_step step by (rule consumesD)
      show ?thesis
      proof (cases r)
        case (Inl e)
        then show ?thesis using False step a by (simp add: vm_actions.simps)
      next
        case (Inr n')
        have "later s' (snd (vm_actions py ev n' s'))"
          using "1.IH" [OF False step [symmetric] Inr] .
        then have "later s (snd (vm_actions py ev n' s'))"
          using a later_trans by blast
        then show ?thesis using False step Inr by (simp add: vm_actions.simps)
      qed
    qed
  qed
  then show ?thesis by (simp add: consumes_def)
qed

text \<open>
  One pass through the body of \<open>while True\<close> in \<open>main\<close>; the result \<open>False\<close> is the
  \<open>break\<close> of option 0.
\<close>

definition main_step :: "builtins \<Rightarrow> env \<Rightarrow> bool prog" where
  "main_step py ev =
     andthen (prints [nl @ ''[1] VCenter Info'', ''[2] Session Details'', ''[3] VM Details'',
                      ''[4] Perform VM Actions'', ''[0] Exit the program.'']) (\<lambda>_.
     andthen (read_option py) (\<lambda>option.
       if option = 1 then
         andthen (prints [''VCenter Info Option Selected.'', about_info ev]) (\<lambda>_. ret True)
       else if option = 2 then
         andthen (print ''Session Details Selected.'') (\<lambda>_.
         andthen (get_session_info ev) (\<lambda>_. ret True))
       else if option = 3 then
         andthen (print ''VM Details Selected.'') (\<lambda>_.
         andthen (input ''Enter VM name to search (leave empty for all): '') (\<lambda>l.
           let name_filter = strip py l in
           andthen (search_vms py ev name_filter) (\<lambda>vms.
           andthen (display_vm_info ev vms) (\<lambda>_. ret True))))
       else if option = 4 then
         andthen (print []) (\<lambda>_.
         andthen vmmenu (\<lambda>_.
         andthen (read_option py) (\<lambda>vmoption.
         andthen (vm_actions py ev vmoption) (\<lambda>_. ret True))))
       else if option = 0 then
         andthen (prints [''Exiting program...'', ''Goodbye!'']) (\<lambda>_. ret False)
       else
         andthen (print ''Invalid option. Please try again.'') (\<lambda>_. ret True)))"

lemma consumes_one_main_step: "consumes_one (main_step py ev)"
  unfolding main_step_def
  apply (rule consumes_then_one)
   apply (rule consumes_prints)
  apply (rule consumes_one_then)
   apply (rule consumes_one_read_option)
  unfolding get_session_info_def display_vm_info_def vmmenu_def read_option_def Let_def
  apply (intro consumes_intros consumes_vm_actions)
  done

text \<open>
  The menu loop of \<open>main\<close>, from the first menu on (the connection is made before it;
  \<open>Disconnect\<close> at the exit is not a call of the Task Invoker and leaves no event).
\<close>

function main_loop :: "builtins \<Rightarrow> env \<Rightarrow> unit prog" where
  "main_loop py ev s =
     (case main_step py ev s of
        (Inl e, s') \<Rightarrow> (Inl e, s')
      | (Inr again, s') \<Rightarrow> if again then main_loop py ev s' else (Inr (), s'))"
  by pat_completeness auto
termination
proof (relation "measure (\<lambda>(py, ev, s). length (inputs s))")
  show "wf (measure (\<lambda>(py, ev, s). length (inputs s)))"
    by simp
next
  fix py :: builtins and ev :: env and s :: io and x :: "exn + bool" and s' :: io
    and again :: bool
  assume "(x, s') = main_step py ev s" and "x = Inr again" and "again"
  then have "main_step py ev s = (Inr again, s')"
    by simp
  then have "length (inputs s') < length (inputs s)"
    using consumes_one_main_step by (auto simp: consumes_one_def)
  then show "((py, ev, s'), (py, ev, s)) \<in> measure (\<lambda>(py, ev, s). length (inputs s))"
    by simp
qed

declare main_loop.simps [simp del]

section \<open>The builtins on ASCII text, for the examples\<close>

text \<open>
  To run the console on an example the four builtins must be given. \<open>ascii\<close> gives them
  for ASCII text: on a string of ASCII characters, of fewer than 4300 characters for
  \<open>int\<close>, each function returns what Python returns. It says nothing about other
  strings, and it is used below only in examples whose strings are all ASCII; no theorem
  about all inputs is stated for it.

  \<open>str.strip\<close> drops the ASCII white space 09-0D, 1C-1F and 20 at both ends;
  \<open>str.upper\<close> and \<open>str.lower\<close> map the 26 letters; \<open>int\<close> drops the white space
  09-0D and 20 at both ends, then reads an optional sign and decimal digits, where single
  underscores may stand between two digits.
\<close>

definition ascii_isspace :: "char \<Rightarrow> bool" where
  "ascii_isspace c = (c \<in> set [CHR 0x09, CHR 0x0A, CHR 0x0B, CHR 0x0C, CHR 0x0D,
                                CHR 0x1C, CHR 0x1D, CHR 0x1E, CHR 0x1F, CHR 0x20])"

definition ascii_strip :: "string \<Rightarrow> string" where
  "ascii_strip s = rev (dropWhile ascii_isspace (rev (dropWhile ascii_isspace s)))"

definition ascii_lowercase :: string where
  "ascii_lowercase = ''abcdefghijklmnopqrstuvwxyz''"

definition ascii_uppercase :: string where
  "ascii_uppercase = ''ABCDEFGHIJKLMNOPQRSTUVWXYZ''"

definition ascii_upper_char :: "char \<Rightarrow> char" where
  "ascii_upper_char c = (case map_of (zip ascii_lowercase ascii_uppercase) c of
                           Some u \<Rightarrow> u | None \<Rightarrow> c)"

definition ascii_lower_char :: "char \<Rightarrow> char" where
  "ascii_lower_char c = (case map_of (zip ascii_uppercase ascii_lowercase) c of
                           Some l \<Rightarrow> l | None \<Rightarrow> c)"

definition ascii_upper :: "string \<Rightarrow> string" where
  "ascii_upper s = map ascii_upper_char s"

definition ascii_lower :: "string \<Rightarrow> string" where
  "ascii_lower s = map ascii_lower_char s"

definition int_isspace :: "char \<Rightarrow> bool" where
  "int_isspace c = (c \<in> set [CHR 0x09, CHR 0x0A, CHR 0x0B, CHR 0x0C, CHR 0x0D, CHR 0x20])"

definition isdigit :: "char \<Rightarrow> bool" where
  "isdigit c = (c \<in> set ''0123456789'')"

definition digit_val :: "char \<Rightarrow> int" where
  "digit_val c = (case map_of (zip ''0123456789'' [0, 1, 2, 3, 4, 5, 6, 7, 8, 9]) c of
                    Some d \<Rightarrow> d | None \<Rightarrow> 0)"

fun digits_from :: "string \<Rightarrow> int \<Rightarrow> bool \<Rightarrow> int option" where
  "digits_from [] acc prev_digit = (if prev_digit then Some acc else None)"
| "digits_from (c # cs) acc prev_digit =
     (if isdigit c then digits_from cs (acc * 10 + digit_val c) True
      else if c = CHR ''_'' \<and> prev_digit then digits_from cs acc False
      else None)"

definition int_literal :: "string \<Rightarrow> int option" where
  "int_literal s =
     (case s of
        [] \<Rightarrow> None
      | c # cs \<Rightarrow>
          if c = CHR ''-'' then map_option uminus (digits_from cs 0 False)
          else if c = CHR ''+'' then digits_from cs 0 False
          else digits_from (c # cs) 0 False)"

definition ascii_int :: "string \<Rightarrow> int option" where
  "ascii_int s = int_literal (rev (dropWhile int_isspace (rev (dropWhile int_isspace s))))"

definition ascii :: builtins where
  "ascii = \<lparr>strip = ascii_strip, upper = ascii_upper, lower = ascii_lower,
            py_int = ascii_int\<rparr>"

section \<open>Example inventory and environments\<close>

definition web01 :: vm_handle where
  "web01 = \<lparr>moId = ''vm-1'', name = ''web01'', powerState = poweredOn\<rparr>"

definition web02 :: vm_handle where
  "web02 = \<lparr>moId = ''vm-2'', name = ''web02'', powerState = poweredOff\<rparr>"

definition db01 :: vm_handle where
  "db01 = \<lparr>moId = ''vm-3'', name = ''db01'', powerState = poweredOff\<rparr>"

definition app1 :: vm_handle where
  "app1 = \<lparr>moId = ''vm-4'', name = ''app1'', powerState = suspended\<rparr>"

text \<open>A server on which every call succeeds, and one on which every call raises.\<close>

definition quiet :: env where
  "quiet = \<lparr>invoker = (\<lambda>h c. None), strftime = (\<lambda>h. ''20240101-120000''),
            inventory = (\<lambda>h. [web01, web02, db01, app1]), about_info = ''about'',
            userName = ''admin'', vcenter_host = ''vcenter.lab'',
            ipAddress = ''10.0.0.5'', format_row = name\<rparr>"

definition failing :: env where
  "failing = quiet\<lparr>invoker := (\<lambda>h c. Some ''boom'')\<rparr>"

section \<open>Properties of runs\<close>

text \<open>A run that ends by cancelling: it returns, calls nothing, and its last line says so.\<close>

definition cancelled :: "unit prog \<Rightarrow> io \<Rightarrow> bool" where
  "cancelled p s =
     (outcome p s = Inr () \<and> calls_of (events_of p s) = []
      \<and> last (events_of p s) = Printed ''Cancelled.'')"

text \<open>
  Every call that raised is followed at once by the line \<open>label: text\<close>, where the label
  may depend on the call.
\<close>

fun failures_reported :: "(call \<Rightarrow> string) \<Rightarrow> event list \<Rightarrow> bool" where
  "failures_reported label [] = True"
| "failures_reported label (Invoked c (Some e) # es) =
     (es \<noteq> [] \<and> hd es = Printed (label c @ '': '' @ e) \<and> failures_reported label es)"
| "failures_reported label (x # es) = failures_reported label es"

definition delete_label :: "call \<Rightarrow> string" where
  "delete_label c =
     (case c of PowerOff vm \<Rightarrow> ''Failed to power off'' | _ \<Rightarrow> ''Failed to delete VM'')"

section \<open>Running a program step by step\<close>

lemma andthen_ret: "andthen (ret x) f s = f x s"
  by (simp add: andthen_def ret_def)

lemma andthen_raise: "andthen (raise e) f s = (Inl e, s)"
  by (simp add: andthen_def raise_def)

lemma andthen_print: "andthen (print l) f s = f () (s\<lparr>trace := trace s @ [Printed l]\<rparr>)"
  by (simp add: andthen_def print_def)

lemma andthen_prints:
  "andthen (prints ls) f s = f () (s\<lparr>trace := trace s @ map Printed ls\<rparr>)"
  by (simp add: andthen_def prints_def)

lemma andthen_input:
  "andthen (input p) f s =
     (case inputs s of
        [] \<Rightarrow> (Inl EOFError, s\<lparr>trace := trace s @ [Prompted p]\<rparr>)
      | l # ls \<Rightarrow> f l (s\<lparr>inputs := ls, trace := trace s @ [Prompted p]\<rparr>))"
  by (simp add: andthen_def input_def split: list.splits)

lemma andthen_assoc: "andthen (andthen m g) f s = andthen m (\<lambda>x. andthen (g x) f) s"
  by (simp add: andthen_def split: prod.splits sum.splits)

lemma andthen_time: "andthen (time_strftime ev) f s = f (strftime ev (calls_of (trace s))) s"
  by (simp add: andthen_def time_strftime_def)

lemma try_invoke:
  "except_Exception (andthen (invoke ev c) f) h s =
     (case invoker ev (calls_of (trace s)) c of
        None \<Rightarrow> except_Exception (f ()) h (s\<lparr>trace := trace s @ [Invoked c None]\<rparr>)
      | Some e \<Rightarrow> h e (s\<lparr>trace := trace s @ [Invoked c (Some e)]\<rparr>))"
  by (simp add: except_Exception_def andthen_def invoke_def Let_def split: option.splits)

lemma try_print:
  "except_Exception (andthen (print l) f) h s =
     except_Exception (f ()) h (s\<lparr>trace := trace s @ [Printed l]\<rparr>)"
  by (simp add: except_Exception_def andthen_def print_def)

lemma try_print_last: "except_Exception (print l) h s = print l s"
  by (simp add: except_Exception_def print_def)

lemma try_ret: "except_Exception (ret x) h s = (Inr x, s)"
  by (simp add: except_Exception_def ret_def)

lemmas exec = andthen_ret andthen_raise andthen_print andthen_prints andthen_input
  andthen_assoc andthen_time try_invoke try_print try_print_last try_ret
  print_def ret_def Let_def list_vms_def outcome_def events_of_def

lemma calls_of_append: "calls_of (es @ fs) = calls_of es @ calls_of fs"
  by (induction es rule: calls_of.induct) simp_all

lemma calls_of_Printed: "calls_of (map (Printed \<circ> f) xs) = []"
  by (induction xs) simp_all

lemma prompts_of_append: "prompts_of (es @ fs) = prompts_of es @ prompts_of fs"
  by (induction es rule: prompts_of.induct) simp_all

lemma prompts_of_Printed: "prompts_of (map (Printed \<circ> f) xs) = []"
  by (induction xs) simp_all

lemma failures_reported_Printed:
  "failures_reported label (map (Printed \<circ> f) xs @ es) = failures_reported label es"
  by (induction xs) simp_all

lemmas events = calls_of_append calls_of_Printed prompts_of_append prompts_of_Printed
  failures_reported_Printed

section \<open>Declining the primary confirmation\<close>

lemma power_on_cancelled:
  "inputs s = l # c # rest \<Longrightarrow> strip py l = [] \<Longrightarrow> upper py (strip py c) \<noteq> ''Y'' \<Longrightarrow>
   cancelled (power_on_vm py ev vms) s"
  by (simp add: cancelled_def power_on_vm_def exec events)

lemma power_off_cancelled:
  "inputs s = l # c # rest \<Longrightarrow> strip py l = [] \<Longrightarrow> upper py (strip py c) \<noteq> ''Y'' \<Longrightarrow>
   cancelled (power_off_vm py ev vms) s"
  by (simp add: cancelled_def power_off_vm_def exec events)

lemma snapshot_cancelled:
  "inputs s = l # c # rest \<Longrightarrow> matching py (strip py l) vms \<noteq> [] \<Longrightarrow> upper py (strip py c) \<noteq> ''Y'' \<Longrightarrow>
   cancelled (create_snapshot py ev vms) s"
  by (simp add: cancelled_def create_snapshot_def snapshot_target_def exec events
      split: list.splits)

lemma delete_cancelled:
  "inputs s = l # c # rest \<Longrightarrow> matching py (strip py l) vms \<noteq> [] \<Longrightarrow> upper py (strip py c) \<noteq> ''YES'' \<Longrightarrow>
   cancelled (delete_vm py ev vms) s"
  by (simp add: cancelled_def delete_vm_def delete_target_def exec events
      split: list.splits)

lemma reconfigure_cancelled:
  "inputs s = l # c # rest \<Longrightarrow> matching py (strip py l) vms \<noteq> [] \<Longrightarrow>
   powerState (hd (matching py (strip py l) vms)) = poweredOff \<Longrightarrow> upper py (strip py c) \<noteq> ''Y'' \<Longrightarrow>
   cancelled (reconfigure_vm py ev vms) s"
  by (cases "matching py (strip py l) vms")
     (simp_all add: cancelled_def reconfigure_vm_def reconfigure_target_def exec events)

lemma rename_cancelled:
  "inputs s = l # c # rest \<Longrightarrow> matching py (strip py l) vms \<noteq> [] \<Longrightarrow> upper py (strip py c) \<noteq> ''Y'' \<Longrightarrow>
   cancelled (rename_vm py ev vms) s"
  by (simp add: cancelled_def rename_vm_def rename_target_def exec events
      split: list.splits)

text \<open>
  C1. In every handler that asks a primary confirmation (power on and power off of ALL
  VMs, snapshot, delete, reconfigure, rename), a run in which the answer to that prompt,
  stripped and in upper case, is not the accepting token (\<open>Y\<close>, or \<open>YES\<close> for delete)
  returns without any remote call, and its last line is \<open>Cancelled.\<close> The prompt is
  reached when the name line is empty (power on/off), when the name matches a VM
  (snapshot, delete, rename), and when moreover the first match is powered off
  (reconfigure).
\<close>

theorem declined_confirmation_makes_no_call:
  assumes "inputs s = l # c # rest"
  shows "(strip py l = [] \<and> upper py (strip py c) \<noteq> ''Y'' \<longrightarrow> cancelled (power_on_vm py ev vms) s)
       \<and> (strip py l = [] \<and> upper py (strip py c) \<noteq> ''Y'' \<longrightarrow> cancelled (power_off_vm py ev vms) s)
       \<and> (matching py (strip py l) vms \<noteq> [] \<and> upper py (strip py c) \<noteq> ''Y''
            \<longrightarrow> cancelled (create_snapshot py ev vms) s)
       \<and> (matching py (strip py l) vms \<noteq> [] \<and> upper py (strip py c) \<noteq> ''YES''
            \<longrightarrow> cancelled (delete_vm py ev vms) s)
       \<and> (matching py (strip py l) vms \<noteq> [] \<and> powerState (hd (matching py (strip py l) vms)) = poweredOff
            \<and> upper py (strip py c) \<noteq> ''Y'' \<longrightarrow> cancelled (reconfigure_vm py ev vms) s)
       \<and> (matching py (strip py l) vms \<noteq> [] \<and> upper py (strip py c) \<noteq> ''Y''
            \<longrightarrow> cancelled (rename_vm py ev vms) s)"
proof (intro conjI impI; elim conjE)
  show "strip py l = [] \<Longrightarrow> upper py (strip py c) \<noteq> ''Y'' \<Longrightarrow> cancelled (power_on_vm py ev vms) s"
    by (rule power_on_cancelled [OF assms])
  show "strip py l = [] \<Longrightarrow> upper py (strip py c) \<noteq> ''Y'' \<Longrightarrow> cancelled (power_off_vm py ev vms) s"
    by (rule power_off_cancelled [OF assms])
  show "matching py (strip py l) vms \<noteq> [] \<Longrightarrow> upper py (strip py c) \<noteq> ''Y'' \<Longrightarrow>
        cancelled (create_snapshot py ev vms) s"
    by (rule snapshot_cancelled [OF assms])
  show "matching py (strip py l) vms \<noteq> [] \<Longrightarrow> upper py (strip py c) \<noteq> ''YES'' \<Longrightarrow>
        cancelled (delete_vm py ev vms) s"
    by (rule delete_cancelled [OF assms])
  show "matching py (strip py l) vms \<noteq> [] \<Longrightarrow> powerState (hd (matching py (strip py l) vms)) = poweredOff \<Longrightarrow>
        upper py (strip py c) \<noteq> ''Y'' \<Longrightarrow> cancelled (reconfigure_vm py ev vms) s"
    by (rule reconfigure_cancelled [OF assms])
  show "matching py (strip py l) vms \<noteq> [] \<Longrightarrow> upper py (strip py c) \<noteq> ''Y'' \<Longrightarrow>
        cancelled (rename_vm py ev vms) s"
    by (rule rename_cancelled [OF assms])
qed

lemmas string_eval = ascii_def ascii_strip_def ascii_isspace_def ascii_upper_def
  ascii_lower_def ascii_upper_char_def ascii_lower_char_def ascii_lowercase_def
  ascii_uppercase_def matching_def

theorem declined_confirmation_makes_no_call_witness:
  "cancelled (power_on_vm ascii quiet [db01]) (start ['''', ''no''])
   \<and> cancelled (power_off_vm ascii quiet [db01]) (start ['''', ''no''])
   \<and> cancelled (create_snapshot ascii quiet [db01]) (start ['''', ''no''])
   \<and> cancelled (delete_vm ascii quiet [db01]) (start ['''', ''no''])
   \<and> cancelled (reconfigure_vm ascii quiet [db01]) (start ['''', ''no''])
   \<and> cancelled (rename_vm ascii quiet [db01]) (start ['''', ''no''])"
  using declined_confirmation_makes_no_call
    [where s = "start ['''', ''no'']" and l = "''''" and c = "''no''" and rest = "[]"
       and vms = "[db01]" and ev = quiet and py = ascii]
  by (simp add: start_def string_eval db01_def)

section \<open>Rename: the empty name\<close>

text \<open>
  C7. In the rename handler, when the confirmation was accepted and the new name is empty
  after stripping, the handler prints \<open>Name cannot be empty\<close> as its last line and
  returns; no remote call is made.
\<close>

theorem rename_empty_name_rejected:
  assumes "inputs s = l # c # n # rest"
    and "matching py (strip py l) vms \<noteq> []"
    and "upper py (strip py c) = ''Y''"
    and "strip py n = []"
  shows "outcome (rename_vm py ev vms) s = Inr ()
       \<and> calls_of (events_of (rename_vm py ev vms) s) = []
       \<and> last (events_of (rename_vm py ev vms) s) = Printed ''Name cannot be empty''"
  using assms
  by (cases "matching py (strip py l) vms")
     (simp_all add: rename_vm_def rename_target_def exec events)

theorem rename_empty_name_rejected_witness:
  "outcome (rename_vm ascii quiet [web01, app1]) (start [''app1'', ''y'', '''']) = Inr ()
   \<and> calls_of (events_of (rename_vm ascii quiet [web01, app1]) (start [''app1'', ''y'', ''''])) = []
   \<and> last (events_of (rename_vm ascii quiet [web01, app1]) (start [''app1'', ''y'', '''']))
       = Printed ''Name cannot be empty''"
  using rename_empty_name_rejected
    [where s = "start [''app1'', ''y'', '''']" and l = "''app1''" and c = "''y''"
       and n = "''''" and rest = "[]" and vms = "[web01, app1]" and ev = quiet and py = ascii]
  by (simp add: start_def string_eval web01_def app1_def)

section \<open>Reconfigure: the power-state precondition\<close>

text \<open>
  C4. When the VM the reconfigure handler resolves is not powered off, the handler prints
  the line that the VM must be powered off, makes no remote call, and returns. The only
  prompt of the whole run is the one for the VM name, which comes before the target is
  known: neither the confirmation nor a CPU or memory prompt is shown, and no further
  line of input is read.
\<close>

theorem reconfigure_refuses_unless_powered_off:
  assumes "inputs s = l # rest"
    and "matching py (strip py l) vms = vm # others"
    and "powerState vm \<noteq> poweredOff"
  shows "outcome (reconfigure_vm py ev vms) s = Inr ()
       \<and> calls_of (events_of (reconfigure_vm py ev vms) s) = []
       \<and> prompts_of (events_of (reconfigure_vm py ev vms) s)
           = [nl @ ''Enter VM name to reconfigure: '']
       \<and> Printed (nl @ warning_sign @ ''  '' @ name vm
                    @ '' must be powered off to reconfigure hardware!'')
           \<in> set (events_of (reconfigure_vm py ev vms) s)
       \<and> last (events_of (reconfigure_vm py ev vms) s) = Printed ''Please power off the VM first.''
       \<and> inputs (snd (reconfigure_vm py ev vms s)) = rest"
  using assms
  by (simp add: reconfigure_vm_def reconfigure_target_def exec events)

theorem reconfigure_refuses_unless_powered_off_witness:
  "outcome (reconfigure_vm ascii quiet [web01, db01]) (start [''web'', ''y'']) = Inr ()
   \<and> calls_of (events_of (reconfigure_vm ascii quiet [web01, db01]) (start [''web'', ''y''])) = []
   \<and> prompts_of (events_of (reconfigure_vm ascii quiet [web01, db01]) (start [''web'', ''y'']))
       = [nl @ ''Enter VM name to reconfigure: '']
   \<and> Printed (nl @ warning_sign @ ''  '' @ name web01
                @ '' must be powered off to reconfigure hardware!'')
       \<in> set (events_of (reconfigure_vm ascii quiet [web01, db01]) (start [''web'', ''y'']))
   \<and> last (events_of (reconfigure_vm ascii quiet [web01, db01]) (start [''web'', ''y'']))
       = Printed ''Please power off the VM first.''
   \<and> inputs (snd (reconfigure_vm ascii quiet [web01, db01] (start [''web'', ''y'']))) = [''y'']"
  using reconfigure_refuses_unless_powered_off
    [where s = "start [''web'', ''y'']" and l = "''web''" and rest = "[''y'']"
       and vms = "[web01, db01]" and vm = web01 and others = "[]" and ev = quiet and py = ascii]
  by (simp add: start_def string_eval web01_def db01_def)

section \<open>Reconfigure: a value that is not a number\<close>

text \<open>A run that stops at a bad value: it returns, calls nothing, and ends with the complaint.\<close>

definition aborted :: "string \<Rightarrow> unit prog \<Rightarrow> io \<Rightarrow> bool" where
  "aborted complaint p s =
     (outcome p s = Inr () \<and> calls_of (events_of p s) = []
      \<and> last (events_of p s) = Printed complaint)"

lemma andthen_ask_value:
  "andthen (ask_value py question prompt complaint) f s =
     (case inputs s of
        [] \<Rightarrow> (Inl EOFError, s\<lparr>trace := trace s @ [Prompted question]\<rparr>)
      | a # ls \<Rightarrow>
          if upper py (strip py a) = ''Y'' then
            (case ls of
               [] \<Rightarrow> (Inl EOFError,
                       s\<lparr>inputs := [], trace := trace s @ [Prompted question, Prompted prompt]\<rparr>)
             | v # ls' \<Rightarrow>
                 (case py_int py (strip py v) of
                    None \<Rightarrow>
                      f None (s\<lparr>inputs := ls',
                                trace := trace s @ [Prompted question, Prompted prompt,
                                                    Printed complaint]\<rparr>)
                  | Some n \<Rightarrow>
                      f (Some (Some n))
                        (s\<lparr>inputs := ls',
                           trace := trace s @ [Prompted question, Prompted prompt]\<rparr>)))
          else f (Some None) (s\<lparr>inputs := ls, trace := trace s @ [Prompted question]\<rparr>))"
  by (simp add: ask_value_def andthen_def except_ValueError_def input_def int_of_def
      raise_def ret_def print_def Let_def split: list.splits option.splits)

lemma bad_cpu_aborts:
  assumes "inputs s = l # c # k # v # rest"
    and "matching py (strip py l) vms = vm # others" and "powerState vm = poweredOff"
    and "upper py (strip py c) = ''Y''" and "upper py (strip py k) = ''Y''" and "py_int py (strip py v) = None"
  shows "aborted ''Invalid CPU count'' (reconfigure_vm py ev vms) s"
  using assms
  by (simp add: aborted_def reconfigure_vm_def reconfigure_target_def andthen_ask_value exec events)

lemma bad_memory_aborts:
  assumes "inputs s = l # c # k # m # v # rest"
    and "matching py (strip py l) vms = vm # others" and "powerState vm = poweredOff"
    and "upper py (strip py c) = ''Y''" and "upper py (strip py k) \<noteq> ''Y''"
    and "upper py (strip py m) = ''Y''" and "py_int py (strip py v) = None"
  shows "aborted ''Invalid memory size'' (reconfigure_vm py ev vms) s"
  using assms
  by (simp add: aborted_def reconfigure_vm_def reconfigure_target_def andthen_ask_value exec events)

lemma bad_memory_after_cpu_aborts:
  assumes "inputs s = l # c # k # w # m # v # rest"
    and "matching py (strip py l) vms = vm # others" and "powerState vm = poweredOff"
    and "upper py (strip py c) = ''Y''" and "upper py (strip py k) = ''Y''" and "py_int py (strip py w) = Some n"
    and "upper py (strip py m) = ''Y''" and "py_int py (strip py v) = None"
  shows "aborted ''Invalid memory size'' (reconfigure_vm py ev vms) s"
  using assms
  by (simp add: aborted_def reconfigure_vm_def reconfigure_target_def andthen_ask_value exec events)

text \<open>
  C5. In the reconfigure handler, after the confirmation: when the user asks to change the
  CPU count and the value does not parse as an integer, the handler ends with
  \<open>Invalid CPU count\<close>; when the user asks to change the memory and the value does not
  parse, whether or not a CPU count was entered before, it ends with
  \<open>Invalid memory size\<close>. In all three runs the handler returns and has made no remote
  call, so nothing of the reconfiguration is applied.
\<close>

theorem reconfigure_bad_number_aborts:
  assumes "matching py (strip py l) vms = vm # others" and "powerState vm = poweredOff"
    and "upper py (strip py c) = ''Y''" and "py_int py (strip py v) = None"
  shows "(inputs s = l # c # k # v # rest \<and> upper py (strip py k) = ''Y''
            \<longrightarrow> aborted ''Invalid CPU count'' (reconfigure_vm py ev vms) s)
       \<and> (inputs s = l # c # k # m # v # rest \<and> upper py (strip py k) \<noteq> ''Y'' \<and> upper py (strip py m) = ''Y''
            \<longrightarrow> aborted ''Invalid memory size'' (reconfigure_vm py ev vms) s)
       \<and> (inputs s = l # c # k # w # m # v # rest \<and> upper py (strip py k) = ''Y''
            \<and> py_int py (strip py w) \<noteq> None \<and> upper py (strip py m) = ''Y''
            \<longrightarrow> aborted ''Invalid memory size'' (reconfigure_vm py ev vms) s)"
proof (intro conjI impI; elim conjE)
  show "inputs s = l # c # k # v # rest \<Longrightarrow> upper py (strip py k) = ''Y'' \<Longrightarrow>
        aborted ''Invalid CPU count'' (reconfigure_vm py ev vms) s"
    using assms by (simp add: bad_cpu_aborts)
  show "inputs s = l # c # k # m # v # rest \<Longrightarrow> upper py (strip py k) \<noteq> ''Y'' \<Longrightarrow>
        upper py (strip py m) = ''Y'' \<Longrightarrow> aborted ''Invalid memory size'' (reconfigure_vm py ev vms) s"
    using assms by (simp add: bad_memory_aborts)
  show "inputs s = l # c # k # w # m # v # rest \<Longrightarrow> upper py (strip py k) = ''Y'' \<Longrightarrow>
        py_int py (strip py w) \<noteq> None \<Longrightarrow> upper py (strip py m) = ''Y'' \<Longrightarrow>
        aborted ''Invalid memory size'' (reconfigure_vm py ev vms) s"
    using assms by (auto intro: bad_memory_after_cpu_aborts)
qed

lemmas int_eval = ascii_def ascii_int_def int_isspace_def int_literal_def isdigit_def
  digit_val_def

theorem reconfigure_bad_number_aborts_witness:
  "aborted ''Invalid CPU count'' (reconfigure_vm ascii quiet [db01]) (start [''db'', ''y'', ''y'', ''x''])
   \<and> aborted ''Invalid memory size'' (reconfigure_vm ascii quiet [db01])
        (start [''db'', ''y'', ''n'', ''y'', ''x''])
   \<and> aborted ''Invalid memory size'' (reconfigure_vm ascii quiet [db01])
        (start [''db'', ''y'', ''y'', ''4'', ''y'', ''x''])"
proof -
  have m: "matching ascii (strip ascii ''db'') [db01] = db01 # []" and p: "powerState db01 = poweredOff"
    and c: "upper ascii (strip ascii ''y'') = ''Y''" and v: "py_int ascii (strip ascii ''x'') = None"
    by (simp_all add: string_eval int_eval db01_def)
  have w: "py_int ascii (strip ascii ''4'') \<noteq> None" and k: "upper ascii (strip ascii ''n'') \<noteq> ''Y''"
    by (simp_all add: string_eval int_eval)
  show ?thesis
    using reconfigure_bad_number_aborts [OF m p c v, where s = "start [''db'', ''y'', ''y'', ''x'']"
        and k = "''y''" and rest = "[]" and ev = quiet]
      reconfigure_bad_number_aborts [OF m p c v, where s = "start [''db'', ''y'', ''n'', ''y'', ''x'']"
        and k = "''n''" and m = "''y''" and rest = "[]" and ev = quiet]
      reconfigure_bad_number_aborts [OF m p c v, where s = "start [''db'', ''y'', ''y'', ''4'', ''y'', ''x'']"
        and k = "''y''" and w = "''4''" and m = "''y''" and rest = "[]" and ev = quiet]
      c w k
    by (simp add: start_def)
qed

lemma andthen_try_invoke:
  "andthen (except_Exception (andthen (invoke ev c) f) h) g s =
     (case invoker ev (calls_of (trace s)) c of
        None \<Rightarrow> andthen (except_Exception (f ()) h) g (s\<lparr>trace := trace s @ [Invoked c None]\<rparr>)
      | Some e \<Rightarrow> andthen (h e) g (s\<lparr>trace := trace s @ [Invoked c (Some e)]\<rparr>))"
  by (simp add: except_Exception_def andthen_def invoke_def Let_def split: option.splits)

lemma andthen_try_print:
  "andthen (except_Exception (andthen (print l) f) h) g s =
     andthen (except_Exception (f ()) h) g (s\<lparr>trace := trace s @ [Printed l]\<rparr>)"
  by (simp add: except_Exception_def andthen_def print_def)

lemma andthen_try_ret: "andthen (except_Exception (ret x) h) g s = g x s"
  by (simp add: except_Exception_def andthen_def ret_def)

lemmas exec_try = andthen_try_invoke andthen_try_print andthen_try_ret

section \<open>Delete: the two confirmations\<close>

text \<open>
  The claim C2 as stated compares the typed line itself with the VM's name. The handler
  strips the line first: on a powered-off VM named \<open>db01\<close> the line \<open>db01\<close> followed by
  a blank differs from the name, and the VM is destroyed all the same.
\<close>

theorem delete_padded_name_counterexample:
  "''db01 '' \<noteq> name db01
   \<and> Destroy_Task db01
       \<in> set (calls_of (events_of (delete_vm ascii quiet [db01]) (start [''db01'', ''YES'', ''db01 ''])))"
  by (simp add: delete_vm_def delete_target_def destroy_target_def exec events start_def
      string_eval db01_def quiet_def quoted_def)

lemma delete_name_mismatch:
  assumes "inputs s = l # c1 # c2 # rest"
    and "matching py (strip py l) vms = vm # others"
    and "upper py (strip py c1) = ''YES''"
    and "strip py c2 \<noteq> name vm"
  shows "outcome (delete_vm py ev vms) s = Inr ()
       \<and> calls_of (events_of (delete_vm py ev vms) s) = []
       \<and> last (events_of (delete_vm py ev vms) s)
           = Printed ''VM name does not match. Deletion cancelled.''"
  using assms
  by (simp add: delete_vm_def delete_target_def exec events)

lemma delete_name_match_powered_off:
  assumes "inputs s = l # c1 # c2 # rest"
    and "matching py (strip py l) vms = vm # others"
    and "upper py (strip py c1) = ''YES''"
    and "strip py c2 = name vm" and "powerState vm = poweredOff"
  shows "outcome (delete_vm py ev vms) s = Inr ()
       \<and> calls_of (events_of (delete_vm py ev vms) s) = [Destroy_Task vm]"
  using assms
  by (simp add: delete_vm_def delete_target_def destroy_target_def
      exec events split: option.splits)

text \<open>
  C2, amended. In the delete handler the first acknowledgment passes for every line whose
  stripped upper-case form is \<open>YES\<close> (so \<open>yes\<close>, \<open>Yes\<close> and \<open>YES\<close> pass). The second
  confirmation compares the typed line, stripped of surrounding white space, with the
  name of the resolved VM, character for character and with case: whenever the stripped
  line differs from the name, the handler ends with the name-mismatch line and makes no
  remote call; when it equals the name and the VM is powered off, the one call made is
  the destruction of that VM.
\<close>

theorem delete_confirmations:
  assumes "inputs s = l # c1 # c2 # rest"
    and "matching py (strip py l) vms = vm # others"
    and "upper py (strip py c1) = ''YES''"
  shows "(strip py c2 \<noteq> name vm \<longrightarrow>
            outcome (delete_vm py ev vms) s = Inr ()
          \<and> calls_of (events_of (delete_vm py ev vms) s) = []
          \<and> last (events_of (delete_vm py ev vms) s)
              = Printed ''VM name does not match. Deletion cancelled.'')
       \<and> (strip py c2 = name vm \<and> powerState vm = poweredOff \<longrightarrow>
            outcome (delete_vm py ev vms) s = Inr ()
          \<and> calls_of (events_of (delete_vm py ev vms) s) = [Destroy_Task vm])"
  using delete_name_mismatch [OF assms] delete_name_match_powered_off [OF assms]
  by simp

theorem delete_confirmations_witness:
  "(outcome (delete_vm ascii quiet [web01, db01]) (start [''db01'', ''yes'', ''DB01'']) = Inr ()
    \<and> calls_of (events_of (delete_vm ascii quiet [web01, db01]) (start [''db01'', ''yes'', ''DB01''])) = []
    \<and> last (events_of (delete_vm ascii quiet [web01, db01]) (start [''db01'', ''yes'', ''DB01'']))
        = Printed ''VM name does not match. Deletion cancelled.'')
   \<and> (outcome (delete_vm ascii quiet [web01, db01]) (start [''db01'', ''Yes'', '' db01 '']) = Inr ()
    \<and> calls_of (events_of (delete_vm ascii quiet [web01, db01]) (start [''db01'', ''Yes'', '' db01 '']))
        = [Destroy_Task db01])
   \<and> (outcome (delete_vm ascii quiet [web01, db01]) (start [''db01'', ''YES'', ''db01'']) = Inr ()
    \<and> calls_of (events_of (delete_vm ascii quiet [web01, db01]) (start [''db01'', ''YES'', ''db01'']))
        = [Destroy_Task db01])"
proof -
  have m: "matching ascii (strip ascii ''db01'') [web01, db01] = db01 # []"
    and y1: "upper ascii (strip ascii ''yes'') = ''YES''"
    and y2: "upper ascii (strip ascii ''Yes'') = ''YES''"
    and y3: "upper ascii (strip ascii ''YES'') = ''YES''"
    by (simp_all add: string_eval web01_def db01_def)
  have i1: "inputs (start [''db01'', ''yes'', ''DB01'']) = ''db01'' # ''yes'' # ''DB01'' # []"
    and i2: "inputs (start [''db01'', ''Yes'', '' db01 '']) = ''db01'' # ''Yes'' # '' db01 '' # []"
    and i3: "inputs (start [''db01'', ''YES'', ''db01'']) = ''db01'' # ''YES'' # ''db01'' # []"
    by (simp_all add: start_def)
  have n1: "strip ascii ''DB01'' \<noteq> name db01"
    and n2: "strip ascii '' db01 '' = name db01 \<and> powerState db01 = poweredOff"
    and n3: "strip ascii ''db01'' = name db01"
    by (simp_all add: string_eval db01_def)
  show ?thesis
    using delete_confirmations [OF i1 m y1, where ev = quiet]
      delete_confirmations [OF i2 m y2, where ev = quiet]
      delete_confirmations [OF i3 m y3, where ev = quiet]
      n1 n2 n3
    by simp
qed

section \<open>Delete: a VM that is not powered off\<close>

lemma delete_power_off_declined:
  assumes "inputs s = l # c1 # c2 # p # rest"
    and "matching py (strip py l) vms = vm # others"
    and "upper py (strip py c1) = ''YES''" and "strip py c2 = name vm"
    and "powerState vm \<noteq> poweredOff"
    and "upper py (strip py p) \<noteq> ''Y''"
  shows "outcome (delete_vm py ev vms) s = Inr ()
       \<and> Prompted ''Power off now? (Y/N): '' \<in> set (events_of (delete_vm py ev vms) s)
       \<and> calls_of (events_of (delete_vm py ev vms) s) = []
       \<and> last (events_of (delete_vm py ev vms) s) = Printed ''Deletion cancelled.''"
  using assms
  by (simp add: delete_vm_def delete_target_def power_off_first_def exec exec_try events)

lemma delete_power_off_failed:
  assumes "inputs s = l # c1 # c2 # p # rest"
    and "matching py (strip py l) vms = vm # others"
    and "upper py (strip py c1) = ''YES''" and "strip py c2 = name vm"
    and "powerState vm \<noteq> poweredOff"
    and "upper py (strip py p) = ''Y''"
    and "invoker ev (calls_of (trace s)) (PowerOff vm) = Some e"
  shows "outcome (delete_vm py ev vms) s = Inr ()
       \<and> Prompted ''Power off now? (Y/N): '' \<in> set (events_of (delete_vm py ev vms) s)
       \<and> calls_of (events_of (delete_vm py ev vms) s) = [PowerOff vm]
       \<and> last (events_of (delete_vm py ev vms) s) = Printed (''Failed to power off: '' @ e)"
  using assms
  by (simp add: delete_vm_def delete_target_def power_off_first_def exec exec_try events)

text \<open>
  The claim C3 as stated lets only the answer \<open>Y\<close> itself go on. The handler strips the
  answer and puts it in upper case first: on \<open>web01\<close>, which is powered on, the answer
  \<open>y\<close> is not \<open>Y\<close>, and the VM is powered off and destroyed.
\<close>

theorem delete_nested_answer_counterexample:
  "''y'' \<noteq> ''Y''
   \<and> calls_of (events_of (delete_vm ascii quiet [web01])
                 (start [''web01'', ''YES'', ''web01'', ''y'']))
       = [PowerOff web01, Destroy_Task web01]"
  by (simp add: delete_vm_def delete_target_def power_off_first_def destroy_target_def
      exec exec_try events start_def string_eval web01_def quiet_def)

text \<open>
  C3, amended. In the delete handler, after both confirmations, a VM that is not powered
  off brings the prompt \<open>Power off now? (Y/N): \<close>. When the answer, stripped and put in
  upper case, is not \<open>Y\<close>, the handler ends with \<open>Deletion cancelled.\<close> and has made no
  call; when it is \<open>Y\<close> and the power-off call raises, the handler ends with the line
  that the power-off failed, and that call is the only one it made. In both runs the
  handler returns and \<open>Destroy_Task\<close> is never called.
\<close>

theorem delete_aborts_when_not_powered_off:
  assumes "inputs s = l # c1 # c2 # p # rest"
    and "matching py (strip py l) vms = vm # others"
    and "upper py (strip py c1) = ''YES''" and "strip py c2 = name vm"
    and "powerState vm \<noteq> poweredOff"
    and "upper py (strip py p) \<noteq> ''Y'' \<or> invoker ev (calls_of (trace s)) (PowerOff vm) \<noteq> None"
  shows "outcome (delete_vm py ev vms) s = Inr ()
       \<and> Prompted ''Power off now? (Y/N): '' \<in> set (events_of (delete_vm py ev vms) s)
       \<and> (\<forall>v. Destroy_Task v \<notin> set (calls_of (events_of (delete_vm py ev vms) s)))
       \<and> calls_of (events_of (delete_vm py ev vms) s)
           = (if upper py (strip py p) = ''Y'' then [PowerOff vm] else [])
       \<and> last (events_of (delete_vm py ev vms) s)
           = Printed (if upper py (strip py p) = ''Y''
                      then ''Failed to power off: '' @ the (invoker ev (calls_of (trace s)) (PowerOff vm))
                      else ''Deletion cancelled.'')"
proof (cases "upper py (strip py p) = ''Y''")
  case True
  then obtain e where "invoker ev (calls_of (trace s)) (PowerOff vm) = Some e"
    using assms(6) by auto
  then show ?thesis
    using delete_power_off_failed [OF assms(1-5) True] True by simp
next
  case False
  then show ?thesis
    using delete_power_off_declined [OF assms(1-5) False] by simp
qed

theorem delete_aborts_when_not_powered_off_witness:
  "(outcome (delete_vm ascii quiet [web01]) (start [''web'', ''YES'', ''web01'', ''n'']) = Inr ()
    \<and> calls_of (events_of (delete_vm ascii quiet [web01]) (start [''web'', ''YES'', ''web01'', ''n''])) = []
    \<and> last (events_of (delete_vm ascii quiet [web01]) (start [''web'', ''YES'', ''web01'', ''n'']))
        = Printed ''Deletion cancelled.'')
   \<and> (outcome (delete_vm ascii failing [web01]) (start [''web'', ''YES'', ''web01'', ''y'']) = Inr ()
    \<and> calls_of (events_of (delete_vm ascii failing [web01]) (start [''web'', ''YES'', ''web01'', ''y'']))
        = [PowerOff web01]
    \<and> last (events_of (delete_vm ascii failing [web01]) (start [''web'', ''YES'', ''web01'', ''y'']))
        = Printed ''Failed to power off: boom'')"
proof -
  have m: "matching ascii (strip ascii ''web'') [web01] = web01 # []"
    and y: "upper ascii (strip ascii ''YES'') = ''YES''" and n: "strip ascii ''web01'' = name web01"
    and p: "powerState web01 \<noteq> poweredOff"
    by (simp_all add: string_eval web01_def)
  have i1: "inputs (start [''web'', ''YES'', ''web01'', ''n'']) = ''web'' # ''YES'' # ''web01'' # ''n'' # []"
    and i2: "inputs (start [''web'', ''YES'', ''web01'', ''y'']) = ''web'' # ''YES'' # ''web01'' # ''y'' # []"
    by (simp_all add: start_def)
  have a1: "upper ascii (strip ascii ''n'') \<noteq> ''Y''
            \<or> invoker quiet (calls_of (trace (start [''web'', ''YES'', ''web01'', ''n''])))
                 (PowerOff web01) \<noteq> None"
    and a2: "upper ascii (strip ascii ''y'') \<noteq> ''Y''
            \<or> invoker failing (calls_of (trace (start [''web'', ''YES'', ''web01'', ''y''])))
                 (PowerOff web01) \<noteq> None"
    by (simp_all add: string_eval failing_def)
  have u: "upper ascii (strip ascii ''n'') \<noteq> ''Y''" "upper ascii (strip ascii ''y'') = ''Y''"
    "invoker failing (calls_of (trace (start [''web'', ''YES'', ''web01'', ''y''])))
       (PowerOff web01) = Some ''boom''"
    by (simp_all add: string_eval failing_def)
  show ?thesis
    using delete_aborts_when_not_powered_off [OF i1 m y n p a1]
      delete_aborts_when_not_powered_off [OF i2 m y n p a2] u
    by simp
qed

section \<open>The power loops\<close>

text \<open>
  What one pass of a power loop over \<open>targets\<close> leaves in the trace: the calls are those
  on the VMs not yet in the state \<open>st\<close>, in order; every VM already in that state has its
  skip line and is the target of no call.
\<close>

definition skipping :: "power_state \<Rightarrow> string \<Rightarrow> (vm_handle \<Rightarrow> call) \<Rightarrow> vm_handle list
    \<Rightarrow> event list \<Rightarrow> bool" where
  "skipping st line mk targets es =
     (calls_of es = map mk (filter (\<lambda>vm. powerState vm \<noteq> st) targets)
      \<and> (\<forall>vm \<in> set targets. powerState vm = st \<longrightarrow>
            Printed (name vm @ line) \<in> set es \<and> vm \<notin> call_target ` set (calls_of es)))"

definition power_on_label :: "call \<Rightarrow> string" where
  "power_on_label c = ''Failed to power on '' @ name (call_target c)"

definition power_off_label :: "call \<Rightarrow> string" where
  "power_off_label c = ''Failed to power off '' @ name (call_target c)"

lemma andthen_try_print_last:
  "andthen (except_Exception (print l) h) g s = g () (s\<lparr>trace := trace s @ [Printed l]\<rparr>)"
  by (simp add: except_Exception_def andthen_def print_def)

lemma skipping_Cons_same:
  assumes "skipping st line mk rest es" and "powerState vm = st" and "calls_of pre = []"
    and "Printed (name vm @ line) \<in> set pre" and "\<And>v. call_target (mk v) = v"
  shows "skipping st line mk (vm # rest) (pre @ es)"
  using assms by (auto simp: skipping_def calls_of_append)

lemma skipping_Cons_other:
  assumes "skipping st line mk rest es" and "powerState vm \<noteq> st" and "calls_of pre = [mk vm]"
    and "\<And>v. call_target (mk v) = v"
  shows "skipping st line mk (vm # rest) (pre @ es)"
  using assms by (auto simp: skipping_def calls_of_append)

lemma power_on_each_run:
  "\<exists>es. power_on_each ev vms s = (Inr (), s\<lparr>trace := trace s @ es\<rparr>)
        \<and> skipping poweredOn '' is already powered on, skipping!'' PowerOn vms es
        \<and> failures_reported power_on_label es"
proof (induction vms arbitrary: s)
  case Nil
  show ?case by (rule exI [of _ "[]"]) (simp add: ret_def skipping_def)
next
  case (Cons vm rest)
  show ?case
  proof (cases "powerState vm = poweredOn")
    case True
    let ?pre = "[Printed (name vm @ '' is already powered on, skipping!'')]"
    obtain es where es: "power_on_each ev rest (s\<lparr>trace := trace s @ ?pre\<rparr>)
          = (Inr (), s\<lparr>trace := trace s @ ?pre\<rparr>\<lparr>trace := trace (s\<lparr>trace := trace s @ ?pre\<rparr>) @ es\<rparr>)"
      and sk: "skipping poweredOn '' is already powered on, skipping!'' PowerOn rest es"
      and fr: "failures_reported power_on_label es"
      using Cons.IH by blast
    have "power_on_each ev (vm # rest) s = (Inr (), s\<lparr>trace := trace s @ (?pre @ es)\<rparr>)"
      using True es by (simp add: andthen_print)
    moreover have "skipping poweredOn '' is already powered on, skipping!'' PowerOn (vm # rest) (?pre @ es)"
      by (rule skipping_Cons_same [OF sk True]) simp_all
    moreover have "failures_reported power_on_label (?pre @ es)"
      using fr by simp
    ultimately show ?thesis by blast
  next
    case False
    let ?r = "invoker ev (calls_of (trace s)) (PowerOn vm)"
    let ?pre = "[Printed (name vm @ '' is not powered on, powering on now!''),
                 Invoked (PowerOn vm) ?r,
                 Printed (case ?r of None \<Rightarrow> name vm @ '' is now powered on!''
                          | Some e \<Rightarrow> ''Failed to power on '' @ name vm @ '': '' @ e)]"
    obtain es where es: "power_on_each ev rest (s\<lparr>trace := trace s @ ?pre\<rparr>)
          = (Inr (), s\<lparr>trace := trace s @ ?pre\<rparr>\<lparr>trace := trace (s\<lparr>trace := trace s @ ?pre\<rparr>) @ es\<rparr>)"
      and sk: "skipping poweredOn '' is already powered on, skipping!'' PowerOn rest es"
      and fr: "failures_reported power_on_label es"
      using Cons.IH by blast
    have "power_on_each ev (vm # rest) s = (Inr (), s\<lparr>trace := trace s @ (?pre @ es)\<rparr>)"
      using False es
      by (simp add: andthen_print andthen_assoc andthen_try_invoke andthen_try_print_last
          events split: option.splits)
    moreover have "skipping poweredOn '' is already powered on, skipping!'' PowerOn (vm # rest) (?pre @ es)"
      by (rule skipping_Cons_other [OF sk False]) simp_all
    moreover have "failures_reported power_on_label (?pre @ es)"
      using fr by (cases ?r) (simp_all add: power_on_label_def)
    ultimately show ?thesis by blast
  qed
qed


lemma power_off_each_run:
  "\<exists>es. power_off_each ev vms s = (Inr (), s\<lparr>trace := trace s @ es\<rparr>)
        \<and> skipping poweredOff '' is already powered off, skipping!'' PowerOff vms es
        \<and> failures_reported power_off_label es"
proof (induction vms arbitrary: s)
  case Nil
  show ?case by (rule exI [of _ "[]"]) (simp add: ret_def skipping_def)
next
  case (Cons vm rest)
  show ?case
  proof (cases "powerState vm = poweredOff")
    case True
    let ?pre = "[Printed (name vm @ '' is already powered off, skipping!'')]"
    obtain es where es: "power_off_each ev rest (s\<lparr>trace := trace s @ ?pre\<rparr>)
          = (Inr (), s\<lparr>trace := trace s @ ?pre\<rparr>\<lparr>trace := trace (s\<lparr>trace := trace s @ ?pre\<rparr>) @ es\<rparr>)"
      and sk: "skipping poweredOff '' is already powered off, skipping!'' PowerOff rest es"
      and fr: "failures_reported power_off_label es"
      using Cons.IH by blast
    have "power_off_each ev (vm # rest) s = (Inr (), s\<lparr>trace := trace s @ (?pre @ es)\<rparr>)"
      using True es by (simp add: andthen_print)
    moreover have "skipping poweredOff '' is already powered off, skipping!'' PowerOff (vm # rest) (?pre @ es)"
      by (rule skipping_Cons_same [OF sk True]) simp_all
    moreover have "failures_reported power_off_label (?pre @ es)"
      using fr by simp
    ultimately show ?thesis by blast
  next
    case False
    let ?r = "invoker ev (calls_of (trace s)) (PowerOff vm)"
    let ?pre = "[Printed (name vm @ '' is powered on, powering off now!''),
                 Invoked (PowerOff vm) ?r,
                 Printed (case ?r of None \<Rightarrow> name vm @ '' is now powered off!''
                          | Some e \<Rightarrow> ''Failed to power off '' @ name vm @ '': '' @ e)]"
    obtain es where es: "power_off_each ev rest (s\<lparr>trace := trace s @ ?pre\<rparr>)
          = (Inr (), s\<lparr>trace := trace s @ ?pre\<rparr>\<lparr>trace := trace (s\<lparr>trace := trace s @ ?pre\<rparr>) @ es\<rparr>)"
      and sk: "skipping poweredOff '' is already powered off, skipping!'' PowerOff rest es"
      and fr: "failures_reported power_off_label es"
      using Cons.IH by blast
    have "power_off_each ev (vm # rest) s = (Inr (), s\<lparr>trace := trace s @ (?pre @ es)\<rparr>)"
      using False es
      by (simp add: andthen_print andthen_assoc andthen_try_invoke andthen_try_print_last
          events split: option.splits)
    moreover have "skipping poweredOff '' is already powered off, skipping!'' PowerOff (vm # rest) (?pre @ es)"
      by (rule skipping_Cons_other [OF sk False]) simp_all
    moreover have "failures_reported power_off_label (?pre @ es)"
      using fr by (cases ?r) (simp_all add: power_off_label_def)
    ultimately show ?thesis by blast
  qed
qed

text \<open>An exception leaves a program only as EOFError, when the input is used up.\<close>

definition no_exception_escapes :: "'a prog \<Rightarrow> io \<Rightarrow> bool" where
  "no_exception_escapes p s =
     (case outcome p s of Inr x \<Rightarrow> True | Inl e \<Rightarrow> e = EOFError \<and> inputs (snd (p s)) = [])"

lemma events_of_after:
  assumes "consumes q" and "p s = q s1" and "trace s1 = trace s @ pre"
  shows "events_of p s = pre @ events_of q s1"
proof -
  obtain es where "trace (snd (q s1)) = trace s1 @ es"
    using assms(1) by (auto simp: consumes_def later_def)
  then show ?thesis
    using assms(2,3) by (simp add: events_of_def)
qed

lemma failures_reported_no_calls: "calls_of es = [] \<Longrightarrow> failures_reported label es"
  by (induction es rule: calls_of.induct) simp_all

lemma failures_reported_after:
  "calls_of pre = [] \<Longrightarrow> failures_reported label (pre @ es) = failures_reported label es"
  by (induction pre rule: calls_of.induct) simp_all

lemma skipping_after:
  "calls_of pre = [] \<Longrightarrow> skipping st line mk targets es \<Longrightarrow>
   skipping st line mk targets (pre @ es)"
  by (auto simp: skipping_def calls_of_append)

lemma power_on_each_events:
  "outcome (power_on_each ev vms) s = Inr ()
   \<and> inputs (snd (power_on_each ev vms s)) = inputs s
   \<and> skipping poweredOn '' is already powered on, skipping!'' PowerOn vms
        (events_of (power_on_each ev vms) s)
   \<and> failures_reported power_on_label (events_of (power_on_each ev vms) s)"
proof -
  obtain es where "power_on_each ev vms s = (Inr (), s\<lparr>trace := trace s @ es\<rparr>)"
    and "skipping poweredOn '' is already powered on, skipping!'' PowerOn vms es"
    and "failures_reported power_on_label es"
    using power_on_each_run by blast
  then show ?thesis by (simp add: outcome_def events_of_def)
qed

lemma power_off_each_events:
  "outcome (power_off_each ev vms) s = Inr ()
   \<and> inputs (snd (power_off_each ev vms s)) = inputs s
   \<and> skipping poweredOff '' is already powered off, skipping!'' PowerOff vms
        (events_of (power_off_each ev vms) s)
   \<and> failures_reported power_off_label (events_of (power_off_each ev vms) s)"
proof -
  obtain es where "power_off_each ev vms s = (Inr (), s\<lparr>trace := trace s @ es\<rparr>)"
    and "skipping poweredOff '' is already powered off, skipping!'' PowerOff vms es"
    and "failures_reported power_off_label es"
    using power_off_each_run by blast
  then show ?thesis by (simp add: outcome_def events_of_def)
qed

text \<open>The events up to and including the prompt for the VM name.\<close>

definition preamble :: "string \<Rightarrow> string \<Rightarrow> vm_handle list \<Rightarrow> event list" where
  "preamble title prompt vms =
     Printed (nl @ title) # Printed (nl @ ''VMs managed by vCenter:'')
     # map (Printed \<circ> (\<lambda>vm. ''  - '' @ name vm)) vms @ [Prompted (nl @ prompt)]"

lemma calls_of_preamble: "calls_of (preamble title prompt vms) = []"
  by (simp add: preamble_def events)

lemma power_on_vm_single:
  assumes "inputs s = l # rest" and "strip py l \<noteq> []" and "matching py (strip py l) vms \<noteq> []"
  shows "power_on_vm py ev vms s
         = power_on_each ev (matching py (strip py l) vms)
             (s\<lparr>inputs := rest,
                trace := trace s @ preamble ''=== Power On VM(s) ===''
                           ''Enter VM name to power on (leave empty for ALL): '' vms\<rparr>)"
  using assms by (simp add: power_on_vm_def exec preamble_def)

lemma power_on_vm_all:
  assumes "inputs s = l # c # rest" and "strip py l = []" and "upper py (strip py c) = ''Y''"
  shows "power_on_vm py ev vms s
         = power_on_each ev vms
             (s\<lparr>inputs := rest,
                trace := trace s @ preamble ''=== Power On VM(s) ===''
                           ''Enter VM name to power on (leave empty for ALL): '' vms
                         @ [Prompted ''Are you sure you want to power on ALL VMs? (Y/N): '']\<rparr>)"
  using assms by (simp add: power_on_vm_def exec preamble_def)

lemma power_off_vm_single:
  assumes "inputs s = l # rest" and "strip py l \<noteq> []" and "matching py (strip py l) vms \<noteq> []"
  shows "power_off_vm py ev vms s
         = power_off_each ev (matching py (strip py l) vms)
             (s\<lparr>inputs := rest,
                trace := trace s @ preamble ''=== Power Off VM(s) ===''
                           ''Enter VM name to power off (leave empty for ALL): '' vms\<rparr>)"
  using assms by (simp add: power_off_vm_def exec preamble_def)

lemma power_off_vm_all:
  assumes "inputs s = l # c # rest" and "strip py l = []" and "upper py (strip py c) = ''Y''"
  shows "power_off_vm py ev vms s
         = power_off_each ev vms
             (s\<lparr>inputs := rest,
                trace := trace s @ preamble ''=== Power Off VM(s) ===''
                           ''Enter VM name to power off (leave empty for ALL): '' vms
                         @ [Prompted ''Are you sure you want to power off ALL VMs? (Y/N): '']\<rparr>)"
  using assms by (simp add: power_off_vm_def exec preamble_def)

lemma power_on_vm_no_match:
  assumes "inputs s = l # rest" and "strip py l \<noteq> []" and "matching py (strip py l) vms = []"
  shows "outcome (power_on_vm py ev vms) s = Inr ()
       \<and> calls_of (events_of (power_on_vm py ev vms) s) = []"
  using assms by (simp add: power_on_vm_def exec events)

lemma power_off_vm_no_match:
  assumes "inputs s = l # rest" and "strip py l \<noteq> []" and "matching py (strip py l) vms = []"
  shows "outcome (power_off_vm py ev vms) s = Inr ()
       \<and> calls_of (events_of (power_off_vm py ev vms) s) = []"
  using assms by (simp add: power_off_vm_def exec events)

lemma power_on_vm_events_single:
  assumes "inputs s = l # rest" and "strip py l \<noteq> []" and "matching py (strip py l) vms \<noteq> []"
  shows "\<exists>pre s1. calls_of pre = [] \<and> inputs s1 = rest
           \<and> power_on_vm py ev vms s = power_on_each ev (matching py (strip py l) vms) s1
           \<and> events_of (power_on_vm py ev vms) s
               = pre @ events_of (power_on_each ev (matching py (strip py l) vms)) s1"
proof -
  let ?pre = "preamble ''=== Power On VM(s) ===''
                ''Enter VM name to power on (leave empty for ALL): '' vms"
  let ?s1 = "s\<lparr>inputs := rest, trace := trace s @ ?pre\<rparr>"
  have run: "power_on_vm py ev vms s = power_on_each ev (matching py (strip py l) vms) ?s1"
    by (rule power_on_vm_single [OF assms])
  have "events_of (power_on_vm py ev vms) s
          = ?pre @ events_of (power_on_each ev (matching py (strip py l) vms)) ?s1"
    by (rule events_of_after [where p = "power_on_vm py ev vms" and s = s
          and q = "power_on_each ev (matching py (strip py l) vms)" and ?s1.0 = ?s1, OF consumes_power_on_each run]) simp
  then show ?thesis
    using run calls_of_preamble by (intro exI [of _ ?pre] exI [of _ ?s1]) simp
qed

lemma power_on_vm_events_all:
  assumes "inputs s = l # c # rest" and "strip py l = []" and "upper py (strip py c) = ''Y''"
  shows "\<exists>pre s1. calls_of pre = [] \<and> inputs s1 = rest
           \<and> power_on_vm py ev vms s = power_on_each ev vms s1
           \<and> events_of (power_on_vm py ev vms) s = pre @ events_of (power_on_each ev vms) s1"
proof -
  let ?pre = "preamble ''=== Power On VM(s) ===''
                ''Enter VM name to power on (leave empty for ALL): '' vms
              @ [Prompted ''Are you sure you want to power on ALL VMs? (Y/N): '']"
  let ?s1 = "s\<lparr>inputs := rest, trace := trace s @ ?pre\<rparr>"
  have run: "power_on_vm py ev vms s = power_on_each ev vms ?s1"
    using power_on_vm_all [OF assms] by simp
  have "events_of (power_on_vm py ev vms) s = ?pre @ events_of (power_on_each ev vms) ?s1"
    by (rule events_of_after [where p = "power_on_vm py ev vms" and s = s
          and q = "power_on_each ev vms" and ?s1.0 = ?s1, OF consumes_power_on_each run]) simp
  then show ?thesis
    using run calls_of_preamble
    by (intro exI [of _ ?pre] exI [of _ ?s1]) (simp add: calls_of_append)
qed

lemma power_off_vm_events_single:
  assumes "inputs s = l # rest" and "strip py l \<noteq> []" and "matching py (strip py l) vms \<noteq> []"
  shows "\<exists>pre s1. calls_of pre = [] \<and> inputs s1 = rest
           \<and> power_off_vm py ev vms s = power_off_each ev (matching py (strip py l) vms) s1
           \<and> events_of (power_off_vm py ev vms) s
               = pre @ events_of (power_off_each ev (matching py (strip py l) vms)) s1"
proof -
  let ?pre = "preamble ''=== Power Off VM(s) ===''
                ''Enter VM name to power off (leave empty for ALL): '' vms"
  let ?s1 = "s\<lparr>inputs := rest, trace := trace s @ ?pre\<rparr>"
  have run: "power_off_vm py ev vms s = power_off_each ev (matching py (strip py l) vms) ?s1"
    by (rule power_off_vm_single [OF assms])
  have "events_of (power_off_vm py ev vms) s
          = ?pre @ events_of (power_off_each ev (matching py (strip py l) vms)) ?s1"
    by (rule events_of_after [where p = "power_off_vm py ev vms" and s = s
          and q = "power_off_each ev (matching py (strip py l) vms)" and ?s1.0 = ?s1, OF consumes_power_off_each run]) simp
  then show ?thesis
    using run calls_of_preamble by (intro exI [of _ ?pre] exI [of _ ?s1]) simp
qed

lemma power_off_vm_events_all:
  assumes "inputs s = l # c # rest" and "strip py l = []" and "upper py (strip py c) = ''Y''"
  shows "\<exists>pre s1. calls_of pre = [] \<and> inputs s1 = rest
           \<and> power_off_vm py ev vms s = power_off_each ev vms s1
           \<and> events_of (power_off_vm py ev vms) s = pre @ events_of (power_off_each ev vms) s1"
proof -
  let ?pre = "preamble ''=== Power Off VM(s) ===''
                ''Enter VM name to power off (leave empty for ALL): '' vms
              @ [Prompted ''Are you sure you want to power off ALL VMs? (Y/N): '']"
  let ?s1 = "s\<lparr>inputs := rest, trace := trace s @ ?pre\<rparr>"
  have run: "power_off_vm py ev vms s = power_off_each ev vms ?s1"
    using power_off_vm_all [OF assms] by simp
  have "events_of (power_off_vm py ev vms) s = ?pre @ events_of (power_off_each ev vms) ?s1"
    by (rule events_of_after [where p = "power_off_vm py ev vms" and s = s
          and q = "power_off_each ev vms" and ?s1.0 = ?s1, OF consumes_power_off_each run]) simp
  then show ?thesis
    using run calls_of_preamble
    by (intro exI [of _ ?pre] exI [of _ ?s1]) (simp add: calls_of_append)
qed

lemma power_on_vm_skipping_single:
  assumes "inputs s = l # rest" and "strip py l \<noteq> []"
  shows "skipping poweredOn '' is already powered on, skipping!'' PowerOn
           (matching py (strip py l) vms) (events_of (power_on_vm py ev vms) s)"
proof (cases "matching py (strip py l) vms = []")
  case True
  then show ?thesis
    using power_on_vm_no_match [OF assms True] by (simp add: skipping_def)
next
  case False
  obtain pre s1 where "calls_of pre = []"
    and "events_of (power_on_vm py ev vms) s
           = pre @ events_of (power_on_each ev (matching py (strip py l) vms)) s1"
    using power_on_vm_events_single [OF assms False, of ev] by blast
  then show ?thesis
    by (simp add: skipping_after power_on_each_events)
qed

lemma power_on_vm_skipping_all:
  assumes "inputs s = l # c # rest" and "strip py l = []" and "upper py (strip py c) = ''Y''"
  shows "skipping poweredOn '' is already powered on, skipping!'' PowerOn vms
           (events_of (power_on_vm py ev vms) s)"
proof -
  obtain pre s1 where "calls_of pre = []"
    and "events_of (power_on_vm py ev vms) s = pre @ events_of (power_on_each ev vms) s1"
    using power_on_vm_events_all [OF assms, of ev vms] by blast
  then show ?thesis
    by (simp add: skipping_after power_on_each_events)
qed

lemma power_off_vm_skipping_single:
  assumes "inputs s = l # rest" and "strip py l \<noteq> []"
  shows "skipping poweredOff '' is already powered off, skipping!'' PowerOff
           (matching py (strip py l) vms) (events_of (power_off_vm py ev vms) s)"
proof (cases "matching py (strip py l) vms = []")
  case True
  then show ?thesis
    using power_off_vm_no_match [OF assms True] by (simp add: skipping_def)
next
  case False
  obtain pre s1 where "calls_of pre = []"
    and "events_of (power_off_vm py ev vms) s
           = pre @ events_of (power_off_each ev (matching py (strip py l) vms)) s1"
    using power_off_vm_events_single [OF assms False, of ev] by blast
  then show ?thesis
    by (simp add: skipping_after power_off_each_events)
qed

lemma power_off_vm_skipping_all:
  assumes "inputs s = l # c # rest" and "strip py l = []" and "upper py (strip py c) = ''Y''"
  shows "skipping poweredOff '' is already powered off, skipping!'' PowerOff vms
           (events_of (power_off_vm py ev vms) s)"
proof -
  obtain pre s1 where "calls_of pre = []"
    and "events_of (power_off_vm py ev vms) s = pre @ events_of (power_off_each ev vms) s1"
    using power_off_vm_events_all [OF assms, of ev vms] by blast
  then show ?thesis
    by (simp add: skipping_after power_off_each_events)
qed

section \<open>Power on and power off: VMs already in the wanted state\<close>

text \<open>
  C6. Whenever the power-on handler reaches its loop, over the VMs matching a non-empty
  name or over all VMs after a confirmed empty name, every target that is already
  powered on gets the line that it is already powered on and is skipped, and is the target
  of no remote call; the calls made are exactly the power-on calls for the other
  targets, in order. The same holds for the power-off handler and the state powered off.
\<close>

theorem already_in_state_is_skipped:
  "(inputs s = l # rest \<and> strip py l \<noteq> [] \<longrightarrow>
      skipping poweredOn '' is already powered on, skipping!'' PowerOn
        (matching py (strip py l) vms) (events_of (power_on_vm py ev vms) s))
   \<and> (inputs s = l # c # rest \<and> strip py l = [] \<and> upper py (strip py c) = ''Y'' \<longrightarrow>
      skipping poweredOn '' is already powered on, skipping!'' PowerOn
        vms (events_of (power_on_vm py ev vms) s))
   \<and> (inputs s = l # rest \<and> strip py l \<noteq> [] \<longrightarrow>
      skipping poweredOff '' is already powered off, skipping!'' PowerOff
        (matching py (strip py l) vms) (events_of (power_off_vm py ev vms) s))
   \<and> (inputs s = l # c # rest \<and> strip py l = [] \<and> upper py (strip py c) = ''Y'' \<longrightarrow>
      skipping poweredOff '' is already powered off, skipping!'' PowerOff
        vms (events_of (power_off_vm py ev vms) s))"
  using power_on_vm_skipping_single power_on_vm_skipping_all
    power_off_vm_skipping_single power_off_vm_skipping_all
  by simp

theorem already_in_state_is_skipped_witness:
  "skipping poweredOn '' is already powered on, skipping!'' PowerOn
     (matching ascii (strip ascii ''web'') [web01, web02, db01])
     (events_of (power_on_vm ascii failing [web01, web02, db01]) (start [''web'']))
   \<and> skipping poweredOn '' is already powered on, skipping!'' PowerOn
     [web01, web02, db01]
     (events_of (power_on_vm ascii failing [web01, web02, db01]) (start ['''', ''y'']))
   \<and> skipping poweredOff '' is already powered off, skipping!'' PowerOff
     (matching ascii (strip ascii ''web'') [web01, web02, db01])
     (events_of (power_off_vm ascii failing [web01, web02, db01]) (start [''web'']))
   \<and> skipping poweredOff '' is already powered off, skipping!'' PowerOff
     [web01, web02, db01]
     (events_of (power_off_vm ascii failing [web01, web02, db01]) (start ['''', ''y'']))"
proof -
  have a: "inputs (start [''web'']) = ''web'' # [] \<and> strip ascii ''web'' \<noteq> []"
    and b: "inputs (start ['''', ''y'']) = '''' # ''y'' # [] \<and> strip ascii '''' = []
            \<and> upper ascii (strip ascii ''y'') = ''Y''"
    by (simp_all add: start_def string_eval)
  show ?thesis
    using already_in_state_is_skipped [where s = "start [''web'']" and l = "''web''"
        and rest = "[]" and vms = "[web01, web02, db01]" and ev = failing and py = ascii]
      already_in_state_is_skipped [where s = "start ['''', ''y'']" and l = "''''"
        and c = "''y''" and rest = "[]" and vms = "[web01, web02, db01]" and ev = failing and py = ascii]
      a b
    by simp
qed

lemma some_target_skipped:
  "matching ascii (strip ascii ''web'') [web01, web02, db01] = [web01, web02]
   \<and> calls_of (events_of (power_on_vm ascii failing [web01, web02, db01]) (start [''web'']))
       = [PowerOn web02]"
  by (simp add: power_on_vm_def exec events andthen_try_invoke andthen_try_print_last
      start_def string_eval web01_def web02_def db01_def failing_def quiet_def)

section \<open>Remote failures are caught and reported\<close>

text \<open>
  \<open>reporting label ok p\<close>: whatever the input and the server, the program \<open>p\<close> only
  makes calls that satisfy \<open>ok\<close>, follows every call that raised by the line
  \<open>label: text\<close>, and lets no exception out but EOFError at the end of the input.
\<close>

definition reporting :: "(call \<Rightarrow> string) \<Rightarrow> (call \<Rightarrow> bool) \<Rightarrow> 'a prog \<Rightarrow> bool" where
  "reporting label ok p =
     (consumes p
      \<and> (\<forall>s. failures_reported label (events_of p s)
             \<and> list_all ok (calls_of (events_of p s))
             \<and> no_exception_escapes p s))"

lemma failures_reported_append:
  "failures_reported label es \<Longrightarrow> failures_reported label fs \<Longrightarrow>
   failures_reported label (es @ fs)"
  by (induction label es rule: failures_reported.induct) simp_all

lemma reporting_andthen:
  assumes m: "reporting label ok m" and f: "\<And>x. reporting label ok (f x)"
  shows "reporting label ok (andthen m f)"
proof -
  have c: "consumes (andthen m f)"
    using m f by (simp add: reporting_def consumes_andthen)
  have "failures_reported label (events_of (andthen m f) s)
        \<and> list_all ok (calls_of (events_of (andthen m f) s))
        \<and> no_exception_escapes (andthen m f) s" for s
  proof (cases "m s")
    case (Pair r s1)
    have ms: "failures_reported label (events_of m s) \<and> list_all ok (calls_of (events_of m s))
              \<and> no_exception_escapes m s"
      using m by (simp add: reporting_def)
    have "later s s1"
      using m Pair by (auto simp: reporting_def dest: consumesD)
    then obtain pre where pre: "trace s1 = trace s @ pre"
      by (auto simp: later_def)
    then have em: "events_of m s = pre"
      using Pair by (simp add: events_of_def)
    show ?thesis
    proof (cases r)
      case (Inl e)
      then show ?thesis
        using Pair ms
        by (simp add: andthen_def events_of_def no_exception_escapes_def outcome_def)
    next
      case (Inr x)
      have run: "andthen m f s = f x s1"
        using Pair Inr by (simp add: andthen_def)
      have fx: "failures_reported label (events_of (f x) s1)
                \<and> list_all ok (calls_of (events_of (f x) s1))
                \<and> no_exception_escapes (f x) s1"
        using f [of x] by (simp add: reporting_def)
      have "consumes (f x)"
        using f [of x] by (simp add: reporting_def)
      then have "events_of (andthen m f) s = pre @ events_of (f x) s1"
        by (rule events_of_after [where p = "andthen m f" and s = s and q = "f x"
              and ?s1.0 = s1, OF _ run pre])
      moreover have "no_exception_escapes (andthen m f) s = no_exception_escapes (f x) s1"
        unfolding no_exception_escapes_def outcome_def run ..
      ultimately show ?thesis
        using ms fx em
        by (simp add: failures_reported_append calls_of_append)
    qed
  qed
  then show ?thesis
    using c by (simp add: reporting_def)
qed

lemma reporting_weaken:
  "reporting label ok p \<Longrightarrow> (\<And>c. ok c \<Longrightarrow> ok' c) \<Longrightarrow> reporting label ok' p"
  by (auto simp: reporting_def list_all_iff)

lemma reporting_ret: "reporting label ok (ret x)"
  by (simp add: reporting_def consumes_ret events_of_def ret_def no_exception_escapes_def
      outcome_def)

lemma reporting_print: "reporting label ok (print l)"
  by (simp add: reporting_def consumes_print events_of_def print_def no_exception_escapes_def
      outcome_def)

lemma reporting_prints: "reporting label ok (prints ls)"
  by (simp add: reporting_def consumes_prints events_of_def prints_def
      no_exception_escapes_def outcome_def failures_reported_no_calls
      calls_of_Printed [unfolded comp_def, of "\<lambda>x. x", simplified])

lemma reporting_input: "reporting label ok (input p)"
  by (simp add: reporting_def consumes_input events_of_def input_def no_exception_escapes_def
      outcome_def split: list.splits)

lemma reporting_time: "reporting label ok (time_strftime ev)"
  by (simp add: reporting_def consumes_time events_of_def time_strftime_def
      no_exception_escapes_def outcome_def)

lemma reporting_if:
  "reporting label ok p \<Longrightarrow> reporting label ok q \<Longrightarrow> reporting label ok (if b then p else q)"
  by simp

lemma reporting_case_list:
  "reporting label ok p \<Longrightarrow> (\<And>x xs. reporting label ok (q x xs)) \<Longrightarrow>
   reporting label ok (case l of [] \<Rightarrow> p | x # xs \<Rightarrow> q x xs)"
  by (simp split: list.splits)

lemma reporting_case_option:
  "reporting label ok p \<Longrightarrow> (\<And>x. reporting label ok (q x)) \<Longrightarrow>
   reporting label ok (case l of None \<Rightarrow> p | Some x \<Rightarrow> q x)"
  by (simp split: option.splits)

text \<open>The \<open>try\<close> blocks: one call, then the line of success or the line of failure.\<close>

lemma reporting_try:
  assumes "ok c" and "\<And>e. bad e = label c @ '': '' @ e"
  shows "reporting label ok
           (except_Exception (andthen (invoke ev c) (\<lambda>_. print good)) (\<lambda>e. print (bad e)))"
proof -
  have "consumes (except_Exception (andthen (invoke ev c) (\<lambda>_. print good))
                    (\<lambda>e. print (bad e)))"
    by (intro consumes_intros)
  then show ?thesis
    using assms
    by (simp add: reporting_def events_of_def try_invoke try_print_last print_def
        no_exception_escapes_def outcome_def split: option.splits)
qed

lemma reporting_try_flag:
  assumes "ok c" and "\<And>e. bad e = label c @ '': '' @ e"
  shows "reporting label ok
           (except_Exception
              (andthen (invoke ev c) (\<lambda>_. andthen (print good) (\<lambda>_. ret True)))
              (\<lambda>e. andthen (print (bad e)) (\<lambda>_. ret False)))"
proof -
  have "consumes (except_Exception
              (andthen (invoke ev c) (\<lambda>_. andthen (print good) (\<lambda>_. ret True)))
              (\<lambda>e. andthen (print (bad e)) (\<lambda>_. ret False)))"
    by (intro consumes_intros)
  then show ?thesis
    using assms
    by (simp add: reporting_def events_of_def try_invoke try_print try_ret andthen_print
        ret_def no_exception_escapes_def outcome_def split: option.splits)
qed

lemma reporting_ask_value: "reporting label ok (ask_value py question prompt complaint)"
proof -
  have "andthen (ask_value py question prompt complaint) ret = ask_value py question prompt complaint"
    by (rule ext) (simp add: andthen_def ret_def split: prod.splits sum.splits)
  then have "ask_value py question prompt complaint s
             = andthen (ask_value py question prompt complaint) ret s" for s
    by simp
  then show ?thesis
    by (simp add: reporting_def consumes_ask_value events_of_def andthen_ask_value ret_def
        no_exception_escapes_def outcome_def split: list.splits option.splits)
qed

lemma try_andthen_ret: "except_Exception (andthen (ret x) f) h s = except_Exception (f x) h s"
  by (simp add: except_Exception_def andthen_def ret_def)

definition reconfigure_label :: "call \<Rightarrow> string" where
  "reconfigure_label c = ''Failed to reconfigure VM''"

lemma reporting_apply_spec:
  "reporting reconfigure_label (\<lambda>c. call_target c = vm) (apply_spec ev vm new_cpu new_memory_gb)"
proof -
  have "failures_reported reconfigure_label (events_of (apply_spec ev vm new_cpu new_memory_gb) s)
        \<and> list_all (\<lambda>c. call_target c = vm)
             (calls_of (events_of (apply_spec ev vm new_cpu new_memory_gb) s))
        \<and> no_exception_escapes (apply_spec ev vm new_cpu new_memory_gb) s" for s
    by (simp add: events_of_def apply_spec_def Let_def
        andthen_print try_invoke try_print try_andthen_ret try_print_last try_ret print_def
        ret_def reconfigure_label_def no_exception_escapes_def outcome_def
        split: option.splits)
  then show ?thesis
    using consumes_apply_spec by (simp add: reporting_def)
qed

lemmas reporting_intros = reporting_andthen reporting_ret reporting_print reporting_prints
  reporting_input reporting_time reporting_if reporting_case_list reporting_case_option
  reporting_try reporting_try_flag reporting_ask_value reporting_apply_spec

definition snapshot_label :: "call \<Rightarrow> string" where
  "snapshot_label c = ''Failed to create snapshot''"

definition rename_label :: "call \<Rightarrow> string" where
  "rename_label c = ''Failed to rename VM''"

lemma reporting_power_on_each: "reporting power_on_label (\<lambda>c. True) (power_on_each ev vms)"
  by (induction vms) (auto intro!: reporting_intros simp: power_on_label_def)

lemma reporting_power_off_each: "reporting power_off_label (\<lambda>c. True) (power_off_each ev vms)"
  by (induction vms) (auto intro!: reporting_intros simp: power_off_label_def)

lemma reporting_power_on_vm: "reporting power_on_label (\<lambda>c. True) (power_on_vm py ev vms)"
  unfolding power_on_vm_def list_vms_def Let_def
  by (intro reporting_intros reporting_power_on_each)

lemma reporting_power_off_vm: "reporting power_off_label (\<lambda>c. True) (power_off_vm py ev vms)"
  unfolding power_off_vm_def list_vms_def Let_def
  by (intro reporting_intros reporting_power_off_each)

lemma reporting_snapshot_target:
  "reporting snapshot_label (\<lambda>c. call_target c = vm) (snapshot_target py ev vm)"
  unfolding snapshot_target_def Let_def
  by (intro reporting_intros) (simp_all add: snapshot_label_def)

lemma reporting_delete_target:
  "reporting delete_label (\<lambda>c. call_target c = vm) (delete_target py ev vm)"
  unfolding delete_target_def power_off_first_def destroy_target_def Let_def
  by (intro reporting_intros) (simp_all add: delete_label_def)

lemma reporting_reconfigure_target:
  "reporting reconfigure_label (\<lambda>c. call_target c = vm) (reconfigure_target py ev vm)"
  unfolding reconfigure_target_def Let_def
  by (intro reporting_intros)

lemma reporting_rename_target:
  "reporting rename_label (\<lambda>c. call_target c = vm) (rename_target py ev vm)"
  unfolding rename_target_def Let_def
  by (intro reporting_intros) (simp_all add: rename_label_def)

lemma reporting_create_snapshot: "reporting snapshot_label (\<lambda>c. True) (create_snapshot py ev vms)"
  unfolding create_snapshot_def list_vms_def Let_def
  by (intro reporting_intros reporting_weaken [OF reporting_snapshot_target]) simp

lemma reporting_delete_vm: "reporting delete_label (\<lambda>c. True) (delete_vm py ev vms)"
  unfolding delete_vm_def list_vms_def Let_def
  by (intro reporting_intros reporting_weaken [OF reporting_delete_target]) simp

lemma reporting_reconfigure_vm: "reporting reconfigure_label (\<lambda>c. True) (reconfigure_vm py ev vms)"
  unfolding reconfigure_vm_def list_vms_def Let_def
  by (intro reporting_intros reporting_weaken [OF reporting_reconfigure_target]) simp

lemma reporting_rename_vm: "reporting rename_label (\<lambda>c. True) (rename_vm py ev vms)"
  unfolding rename_vm_def list_vms_def Let_def
  by (intro reporting_intros reporting_weaken [OF reporting_rename_target]) simp

subsection \<open>After a call, a handler returns\<close>

text \<open>
  \<open>silent p\<close>: the program makes no call. \<open>returning p\<close>: a run of the program in which
  it has made a call returns; so the input can end only at a prompt that comes before
  every call.
\<close>

definition silent :: "'a prog \<Rightarrow> bool" where
  "silent p = (consumes p \<and> (\<forall>s. calls_of (events_of p s) = []))"

definition returning :: "'a prog \<Rightarrow> bool" where
  "returning p =
     (consumes p \<and> (\<forall>s. calls_of (events_of p s) \<noteq> [] \<longrightarrow> (\<exists>x. outcome p s = Inr x)))"

lemma andthen_events:
  assumes m: "consumes m" and f: "\<And>x. consumes (f x)"
  shows "(\<exists>e s1. m s = (Inl e, s1) \<and> events_of (andthen m f) s = events_of m s
            \<and> outcome (andthen m f) s = Inl e)
       \<or> (\<exists>x s1. m s = (Inr x, s1)
            \<and> events_of (andthen m f) s = events_of m s @ events_of (f x) s1
            \<and> outcome (andthen m f) s = outcome (f x) s1)"
proof (cases "m s")
  case (Pair r s1)
  have "later s s1"
    using m Pair by (rule consumesD)
  then obtain pre where pre: "trace s1 = trace s @ pre"
    by (auto simp: later_def)
  then have em: "events_of m s = pre"
    using Pair by (simp add: events_of_def)
  show ?thesis
  proof (cases r)
    case (Inl e)
    then show ?thesis
      using Pair by (simp add: andthen_def events_of_def outcome_def)
  next
    case (Inr x)
    have run: "andthen m f s = f x s1"
      using Pair Inr by (simp add: andthen_def)
    have "events_of (andthen m f) s = pre @ events_of (f x) s1"
      by (rule events_of_after [where p = "andthen m f" and s = s and q = "f x"
            and ?s1.0 = s1, OF f run pre])
    then show ?thesis
      using Pair Inr em run by (simp add: outcome_def)
  qed
qed

lemma silent_andthen:
  assumes "silent m" and "\<And>x. silent (f x)"
  shows "silent (andthen m f)"
proof -
  have c: "consumes m" "\<And>x. consumes (f x)"
    using assms by (simp_all add: silent_def)
  have "calls_of (events_of (andthen m f) s) = []" for s
    using andthen_events [where m = m and f = f and s = s, OF c(1) c(2)] assms
    by (auto simp: silent_def calls_of_append)
  then show ?thesis
    using c by (simp add: silent_def consumes_andthen)
qed

lemma returning_andthen:
  assumes "silent m" and "\<And>x. returning (f x)"
  shows "returning (andthen m f)"
proof -
  have c: "consumes m" "\<And>x. consumes (f x)"
    using assms by (simp_all add: silent_def returning_def)
  have "\<exists>y. outcome (andthen m f) s = Inr y"
    if "calls_of (events_of (andthen m f) s) \<noteq> []" for s
    using andthen_events [where m = m and f = f and s = s, OF c(1) c(2)] assms that
    by (auto simp: silent_def returning_def calls_of_append)
  then show ?thesis
    using c by (simp add: returning_def consumes_andthen)
qed

lemma silent_ret: "silent (ret x)"
  by (simp add: silent_def consumes_ret events_of_def ret_def)

lemma silent_print: "silent (print l)"
  by (simp add: silent_def consumes_print events_of_def print_def)

lemma silent_prints: "silent (prints ls)"
  by (simp add: silent_def consumes_prints events_of_def prints_def
      calls_of_Printed [unfolded comp_def, of "\<lambda>x. x", simplified])

lemma silent_input: "silent (input p)"
  by (simp add: silent_def consumes_input events_of_def input_def split: list.splits)

lemma silent_time: "silent (time_strftime ev)"
  by (simp add: silent_def consumes_time events_of_def time_strftime_def)

lemma silent_if: "silent p \<Longrightarrow> silent q \<Longrightarrow> silent (if b then p else q)"
  by simp

lemma silent_ask_value: "silent (ask_value py question prompt complaint)"
proof -
  have "ask_value py question prompt complaint s
        = andthen (ask_value py question prompt complaint) ret s" for s
    by (simp add: andthen_def ret_def split: prod.splits sum.splits)
  then show ?thesis
    by (simp add: silent_def consumes_ask_value events_of_def andthen_ask_value ret_def
        split: list.splits option.splits)
qed

lemma silent_returning: "silent p \<Longrightarrow> returning p"
  by (simp add: silent_def returning_def)

lemma returning_if: "returning p \<Longrightarrow> returning q \<Longrightarrow> returning (if b then p else q)"
  by simp

lemma returning_case_list:
  "returning p \<Longrightarrow> (\<And>x xs. returning (q x xs)) \<Longrightarrow>
   returning (case l of [] \<Rightarrow> p | x # xs \<Rightarrow> q x xs)"
  by (simp split: list.splits)

lemma returning_case_option:
  "returning p \<Longrightarrow> (\<And>x. returning (q x)) \<Longrightarrow>
   returning (case l of None \<Rightarrow> p | Some x \<Rightarrow> q x)"
  by (simp split: option.splits)

lemma returning_ret: "returning (ret x)"
  by (rule silent_returning [OF silent_ret])

lemma returning_print: "returning (print l)"
  by (rule silent_returning [OF silent_print])

lemma returning_try:
  "returning (except_Exception (andthen (invoke ev c) (\<lambda>_. print good)) (\<lambda>e. print (bad e)))"
proof -
  have "consumes (except_Exception (andthen (invoke ev c) (\<lambda>_. print good))
                    (\<lambda>e. print (bad e)))"
    by (intro consumes_intros)
  then show ?thesis
    by (simp add: returning_def outcome_def try_invoke try_print_last print_def
        split: option.splits)
qed

lemma returning_apply_spec: "returning (apply_spec ev vm new_cpu new_memory_gb)"
proof -
  have "\<exists>x. outcome (apply_spec ev vm new_cpu new_memory_gb) s = Inr x" for s
    by (simp add: apply_spec_def Let_def outcome_def andthen_print try_invoke try_print
        try_andthen_ret try_print_last try_ret print_def ret_def split: option.splits)
  then show ?thesis
    using consumes_apply_spec by (simp add: returning_def)
qed

lemma returning_power_on_each: "returning (power_on_each ev vms)"
  using consumes_power_on_each power_on_each_events by (simp add: returning_def)

lemma returning_power_off_each: "returning (power_off_each ev vms)"
  using consumes_power_off_each power_off_each_events by (simp add: returning_def)

text \<open>The end of the delete handler, from the power-state check on.\<close>

lemma returning_delete_end:
  "returning (andthen (if powerState vm \<noteq> poweredOff then power_off_first py ev vm else ret True)
                (\<lambda>go_on. if go_on then destroy_target ev vm else ret ()))"
proof -
  have "consumes (andthen (if powerState vm \<noteq> poweredOff then power_off_first py ev vm else ret True)
                (\<lambda>go_on. if go_on then destroy_target ev vm else ret ()))"
    by (intro consumes_intros consumes_power_off_first consumes_destroy_target)
  then show ?thesis
    by (simp add: returning_def power_off_first_def destroy_target_def exec exec_try
        split: list.splits option.splits)
qed

lemmas silent_intros = silent_andthen silent_ret silent_print silent_prints silent_input
  silent_time silent_if silent_ask_value

lemmas returning_intros = returning_andthen returning_ret returning_print returning_if
  returning_case_list returning_case_option returning_try returning_apply_spec

lemma returning_power_on_vm: "returning (power_on_vm py ev vms)"
  unfolding power_on_vm_def list_vms_def Let_def
  by (intro returning_intros silent_intros returning_power_on_each)

lemma returning_power_off_vm: "returning (power_off_vm py ev vms)"
  unfolding power_off_vm_def list_vms_def Let_def
  by (intro returning_intros silent_intros returning_power_off_each)

lemma returning_create_snapshot: "returning (create_snapshot py ev vms)"
  unfolding create_snapshot_def snapshot_target_def list_vms_def Let_def
  by (intro returning_intros silent_intros)

lemma returning_reconfigure_vm: "returning (reconfigure_vm py ev vms)"
  unfolding reconfigure_vm_def reconfigure_target_def list_vms_def Let_def
  by (intro returning_intros silent_intros)

lemma returning_rename_vm: "returning (rename_vm py ev vms)"
  unfolding rename_vm_def rename_target_def list_vms_def Let_def
  by (intro returning_intros silent_intros)

lemma returning_delete_vm: "returning (delete_vm py ev vms)"
  unfolding delete_vm_def delete_target_def list_vms_def Let_def
  by (intro returning_delete_end returning_intros silent_intros)

text \<open>
  The claim C8 as stated wants the VM's name in every failure line. When the snapshot call
  on \<open>web01\<close> raises, the handler's last line, right after the call, is
  \<open>Failed to create snapshot: boom\<close>, and the name does not occur in it.
\<close>

theorem snapshot_failure_line_counterexample:
  "last (butlast (events_of (create_snapshot ascii failing [web01])
                   (start [''web01'', ''y'', ''s1'', ''nightly''])))
     = Invoked (CreateSnapshot web01 ''s1'' ''nightly'' False False) (Some ''boom'')
   \<and> last (events_of (create_snapshot ascii failing [web01])
             (start [''web01'', ''y'', ''s1'', ''nightly'']))
       = Printed ''Failed to create snapshot: boom''
   \<and> \<not> py_in (name web01) ''Failed to create snapshot: boom''"
  by (simp add: create_snapshot_def snapshot_target_def exec events start_def string_eval
      web01_def failing_def quiet_def quoted_def butlast_append)

text \<open>
  C8, amended. In each of the six handlers every remote call that raises is followed at
  once by a line that names the operation and gives the exception's text: \<open>Failed to
  power on NAME: text\<close> and \<open>Failed to power off NAME: text\<close> in the two power
  handlers, which alone include the VM's name, and \<open>Failed to create snapshot: text\<close>,
  \<open>Failed to power off: text\<close> and \<open>Failed to delete VM: text\<close> (delete),
  \<open>Failed to reconfigure VM: text\<close>, \<open>Failed to rename VM: text\<close> in the others.
  No exception of a remote call leaves a handler: the only exception that does is
  EOFError when the input ends at a prompt, and a handler that has made a call, whether
  or not the call raised, returns.
\<close>

theorem remote_failures_are_caught:
  "failures_reported power_on_label (events_of (power_on_vm py ev vms) s)
   \<and> failures_reported power_off_label (events_of (power_off_vm py ev vms) s)
   \<and> failures_reported snapshot_label (events_of (create_snapshot py ev vms) s)
   \<and> failures_reported delete_label (events_of (delete_vm py ev vms) s)
   \<and> failures_reported reconfigure_label (events_of (reconfigure_vm py ev vms) s)
   \<and> failures_reported rename_label (events_of (rename_vm py ev vms) s)
   \<and> no_exception_escapes (power_on_vm py ev vms) s
   \<and> no_exception_escapes (power_off_vm py ev vms) s
   \<and> no_exception_escapes (create_snapshot py ev vms) s
   \<and> no_exception_escapes (delete_vm py ev vms) s
   \<and> no_exception_escapes (reconfigure_vm py ev vms) s
   \<and> no_exception_escapes (rename_vm py ev vms) s
   \<and> (calls_of (events_of (power_on_vm py ev vms) s) \<noteq> []
        \<longrightarrow> outcome (power_on_vm py ev vms) s = Inr ())
   \<and> (calls_of (events_of (power_off_vm py ev vms) s) \<noteq> []
        \<longrightarrow> outcome (power_off_vm py ev vms) s = Inr ())
   \<and> (calls_of (events_of (create_snapshot py ev vms) s) \<noteq> []
        \<longrightarrow> outcome (create_snapshot py ev vms) s = Inr ())
   \<and> (calls_of (events_of (delete_vm py ev vms) s) \<noteq> []
        \<longrightarrow> outcome (delete_vm py ev vms) s = Inr ())
   \<and> (calls_of (events_of (reconfigure_vm py ev vms) s) \<noteq> []
        \<longrightarrow> outcome (reconfigure_vm py ev vms) s = Inr ())
   \<and> (calls_of (events_of (rename_vm py ev vms) s) \<noteq> []
        \<longrightarrow> outcome (rename_vm py ev vms) s = Inr ())"
proof -
  have "failures_reported power_on_label (events_of (power_on_vm py ev vms) s)
        \<and> failures_reported power_off_label (events_of (power_off_vm py ev vms) s)
        \<and> failures_reported snapshot_label (events_of (create_snapshot py ev vms) s)
        \<and> failures_reported delete_label (events_of (delete_vm py ev vms) s)
        \<and> failures_reported reconfigure_label (events_of (reconfigure_vm py ev vms) s)
        \<and> failures_reported rename_label (events_of (rename_vm py ev vms) s)
        \<and> no_exception_escapes (power_on_vm py ev vms) s
        \<and> no_exception_escapes (power_off_vm py ev vms) s
        \<and> no_exception_escapes (create_snapshot py ev vms) s
        \<and> no_exception_escapes (delete_vm py ev vms) s
        \<and> no_exception_escapes (reconfigure_vm py ev vms) s
        \<and> no_exception_escapes (rename_vm py ev vms) s"
    using reporting_power_on_vm [of py ev vms] reporting_power_off_vm [of py ev vms]
      reporting_create_snapshot [of py ev vms] reporting_delete_vm [of py ev vms]
      reporting_reconfigure_vm [of py ev vms] reporting_rename_vm [of py ev vms]
    by (simp add: reporting_def)
  moreover have "(calls_of (events_of (power_on_vm py ev vms) s) \<noteq> []
          \<longrightarrow> outcome (power_on_vm py ev vms) s = Inr ())
        \<and> (calls_of (events_of (power_off_vm py ev vms) s) \<noteq> []
          \<longrightarrow> outcome (power_off_vm py ev vms) s = Inr ())
        \<and> (calls_of (events_of (create_snapshot py ev vms) s) \<noteq> []
          \<longrightarrow> outcome (create_snapshot py ev vms) s = Inr ())
        \<and> (calls_of (events_of (delete_vm py ev vms) s) \<noteq> []
          \<longrightarrow> outcome (delete_vm py ev vms) s = Inr ())
        \<and> (calls_of (events_of (reconfigure_vm py ev vms) s) \<noteq> []
          \<longrightarrow> outcome (reconfigure_vm py ev vms) s = Inr ())
        \<and> (calls_of (events_of (rename_vm py ev vms) s) \<noteq> []
          \<longrightarrow> outcome (rename_vm py ev vms) s = Inr ())"
    using returning_power_on_vm [of py ev vms] returning_power_off_vm [of py ev vms]
      returning_create_snapshot [of py ev vms] returning_delete_vm [of py ev vms]
      returning_reconfigure_vm [of py ev vms] returning_rename_vm [of py ev vms]
    by (simp add: returning_def)
  ultimately show ?thesis
    by simp
qed

theorem remote_failures_are_caught_witness:
  "failures_reported rename_label
     (events_of (rename_vm ascii failing [app1]) (start [''app'', ''y'', ''app2'']))
   \<and> no_exception_escapes (rename_vm ascii failing [app1]) (start [''app'', ''y'', ''app2''])
   \<and> outcome (rename_vm ascii failing [app1]) (start [''app'', ''y'', ''app2'']) = Inr ()
   \<and> calls_of (events_of (rename_vm ascii failing [app1]) (start [''app'', ''y'', ''app2'']))
       = [Rename app1 ''app2'']
   \<and> last (events_of (rename_vm ascii failing [app1]) (start [''app'', ''y'', ''app2'']))
       = Printed ''Failed to rename VM: boom''"
proof -
  have "calls_of (events_of (rename_vm ascii failing [app1]) (start [''app'', ''y'', ''app2'']))
          = [Rename app1 ''app2'']
        \<and> last (events_of (rename_vm ascii failing [app1]) (start [''app'', ''y'', ''app2'']))
            = Printed ''Failed to rename VM: boom''"
    by (simp add: rename_vm_def rename_target_def exec events start_def string_eval
        app1_def failing_def quiet_def)
  then show ?thesis
    using remote_failures_are_caught [of ascii failing "[app1]" "start [''app'', ''y'', ''app2'']"]
    by simp
qed

section \<open>Which VMs a name resolves to\<close>



















section \<open>The menu loop and an option that is not a number\<close>

text \<open>
  Whatever the builtins and the server: a first line on which \<open>int\<close> raises ends the
  menu loop with that ValueError.
\<close>

lemma menu_raises_where_int_raises:
  assumes "py_int py l = None"
  shows "outcome (main_loop py ev) \<lparr>inputs = l # rest, trace = []\<rparr> = Inl (ValueError l)"
proof -
  have "fst (main_step py ev \<lparr>inputs = l # rest, trace = []\<rparr>) = Inl (ValueError l)"
    using assms
    by (simp add: main_step_def read_option_def int_of_def andthen_prints andthen_assoc
        andthen_input andthen_raise)
  then show ?thesis
    by (auto simp: outcome_def main_loop.simps [of py ev "\<lparr>inputs = l # rest, trace = []\<rparr>"]
        split: prod.splits sum.splits)
qed

text \<open>
  C9 says that the menus take every line, numeric or not, and ask again. The option is
  read with \<open>int(input(...))\<close> outside any \<open>try\<close>: on the line \<open>abc\<close>, at the main menu
  or at the VM Actions menu, ValueError leaves the loop, whatever the server.
\<close>

theorem menu_option_not_a_number_raises:
  "outcome (main_loop ascii ev) (start [''abc'']) = Inl (ValueError ''abc'')
   \<and> outcome (main_loop ascii ev) (start [''4'', ''abc'']) = Inl (ValueError ''abc'')"
proof -
  have none: "py_int ascii ''abc'' = None" and four: "py_int ascii ''4'' = Some 4"
    by (simp_all add: int_eval string_eval)
  have "fst (main_step ascii ev (start [''abc''])) = Inl (ValueError ''abc'')"
    by (simp add: main_step_def read_option_def int_of_def none andthen_prints andthen_assoc
        andthen_input andthen_raise start_def)
  moreover have "fst (main_step ascii ev (start [''4'', ''abc''])) = Inl (ValueError ''abc'')"
    by (simp add: main_step_def read_option_def int_of_def none four vmmenu_def
        andthen_prints andthen_print andthen_assoc andthen_input andthen_raise andthen_ret
        start_def)
  ultimately show ?thesis
    by (auto simp: outcome_def main_loop.simps [of ascii ev "start [''abc'']"]
        main_loop.simps [of ascii ev "start [''4'', ''abc'']"] split: prod.splits sum.splits)
qed

text \<open>A number that is no option is answered by the menu again; option 0 ends the loop.\<close>

lemma menu_unknown_number_asks_again:
  "outcome (main_loop ascii ev) (start [''9'', ''0'']) = Inr ()
   \<and> prompts_of (events_of (main_loop ascii ev) (start [''9'', ''0'']))
       = [''Enter your option: '', ''Enter your option: '']
   \<and> Printed ''Invalid option. Please try again.''
       \<in> set (events_of (main_loop ascii ev) (start [''9'', ''0'']))"
proof -
  have nine: "py_int ascii ''9'' = Some 9" and zero: "py_int ascii ''0'' = Some 0"
    by (simp_all add: int_eval string_eval)
  let ?menu = "[Printed (nl @ ''[1] VCenter Info''), Printed ''[2] Session Details'',
                Printed ''[3] VM Details'', Printed ''[4] Perform VM Actions'',
                Printed ''[0] Exit the program.'', Prompted ''Enter your option: '']"
  let ?s1 = "\<lparr>inputs = [''0''],
              trace = ?menu @ [Printed ''Invalid option. Please try again.'']\<rparr>"
  have a: "main_step ascii ev (start [''9'', ''0'']) = (Inr True, ?s1)"
    by (simp add: main_step_def read_option_def int_of_def nine andthen_prints andthen_print
        andthen_assoc andthen_input andthen_ret ret_def start_def)
  have b: "main_step ascii ev ?s1
           = (Inr False, \<lparr>inputs = [],
                 trace = ?menu @ [Printed ''Invalid option. Please try again.''] @ ?menu
                         @ [Printed ''Exiting program...'', Printed ''Goodbye!'']\<rparr>)"
    by (simp add: main_step_def read_option_def int_of_def zero andthen_prints andthen_print
        andthen_assoc andthen_input andthen_ret ret_def)
  have "main_loop ascii ev (start [''9'', ''0''])
        = (Inr (), \<lparr>inputs = [],
                 trace = ?menu @ [Printed ''Invalid option. Please try again.''] @ ?menu
                         @ [Printed ''Exiting program...'', Printed ''Goodbye!'']\<rparr>)"
    by (subst main_loop.simps, simp only: a prod.case sum.case if_True,
        subst main_loop.simps, simp only: b prod.case sum.case if_False)
  then show ?thesis
    by (simp add: outcome_def events_of_def start_def)
qed

end
